theory Spec2Isabelle
  imports Complex_Main "HOL-Library.AList"
begin

section \<open>Data model of the audio store (stores/audio.ts, src/unnamed/part_003)\<close>

text \<open>
  The store is the Pinia store \<^verbatim>\<open>useAudioStore\<close>; the seek gesture handlers live in the
  root component (App.vue, src/unnamed/part_002). JavaScript numbers that hold milliseconds, instance ids,
  button ids and counters are integers here: \<^verbatim>\<open>Date.now()\<close>, the engine's
  \<^verbatim>\<open>position_ms\<close>/\<^verbatim>\<open>duration_ms\<close> and the slider (\<^verbatim>\<open>:step="1"\<close>) only produce integers, far
  below \<open>2^53\<close>, where the arithmetic of doubles is exact. Volumes and levels are only
  stored and copied; they are reals.

  A JavaScript \<^verbatim>\<open>Map\<close> keeps insertion order; it is an association list: \<^verbatim>\<open>get\<close> is
  \<^const>\<open>map_of\<close>, \<^verbatim>\<open>set\<close> is \<^const>\<open>AList.update\<close> (in place for a present key, appended
  for a new one), \<^verbatim>\<open>delete\<close> is \<^const>\<open>AList.delete\<close>, \<^verbatim>\<open>clear\<close> gives \<open>[]\<close>.
  The field \<^verbatim>\<open>id\<close> and \<^verbatim>\<open>name\<close> of the two interfaces carry a suffix (\<open>_b\<close> for the
  button, \<open>_p\<close> for the progress entry).
\<close>

record SoundButton =
  id_b :: int
  path :: "string option"
  name_b :: string
  volume :: real
  color :: string
  isPaused :: bool
  activeInstances :: int

record AudioProgress =
  id_p :: string
  instance_id :: int
  name_p :: string
  position_ms :: int
  duration_ms :: int
  is_paused :: bool
  last_sync_time :: int
  last_sync_pos :: int

record MasterLevels =
  peak :: real
  rms :: real

record AudioStore =
  buttons :: "SoundButton list"
  masterVolume :: real
  currentDevice :: string
  activeProgresses :: "(int \<times> AudioProgress) list"
  seekingInstanceId :: "int option"
  seekRecovery :: "(int \<times> int) list"
  masterLevels :: MasterLevels

text \<open>
  The outcome of an awaited \<^verbatim>\<open>invoke(...)\<close>: the promise rejects or resolves with a
  value. The engine behind \<^verbatim>\<open>invoke\<close> is not part of the store, so each action takes
  the outcome of each command it awaits as an argument. The synchronous prefix of an
  action (up to its first \<^verbatim>\<open>await\<close>) is a definition of its own where the state at the
  moment a command is issued matters; \<^verbatim>\<open>playSound\<close> also takes the handlers that run while
  its command is pending. The other actions run from start to end with no other handler
  in between.
\<close>

datatype 'a promise = Rejected | Resolved 'a

datatype command =
  play_sound string string string real
  | seek_instance int int
  | stop_instance int
  | stop_all
  | toggle_pause_instance int
  | set_audio_device string
  | update_master_volume real

subsection \<open>\<^verbatim>\<open>Number.prototype.toString\<close> on integers\<close>

definition digit_char :: "nat \<Rightarrow> char" where
  "digit_char d = ''0123456789'' ! d"

fun nat_toString :: "nat \<Rightarrow> string" where
  "nat_toString n =
     (if n < 10 then [digit_char n]
      else nat_toString (n div 10) @ [digit_char (n mod 10)])"

declare nat_toString.simps [simp del]

definition number_toString :: "int \<Rightarrow> string" where
  "number_toString i =
     (if i < 0 then CHR ''-'' # nat_toString (nat (- i)) else nat_toString (nat i))"

subsection \<open>\<^verbatim>\<open>Array.prototype.find\<close> followed by a mutation of the element found\<close>

text \<open>
  \<^verbatim>\<open>const b = xs.find(P); if (b) { mutate b }\<close>: the first element that satisfies \<open>P\<close>
  is changed where it stands; nothing happens when there is none.
\<close>

fun update_first :: "('a \<Rightarrow> bool) \<Rightarrow> ('a \<Rightarrow> 'a) \<Rightarrow> 'a list \<Rightarrow> 'a list" where
  "update_first P f [] = []"
| "update_first P f (x # xs) = (if P x then f x # xs else x # update_first P f xs)"

subsection \<open>References to objects of an array, held across an \<^verbatim>\<open>await\<close>\<close>

text \<open>
  \<^verbatim>\<open>Array.prototype.findIndex\<close>. An object that \<^verbatim>\<open>find\<close> returned and that a handler still
  holds after an \<^verbatim>\<open>await\<close> is known by its place in the array: the reference is \<open>Some k\<close>
  while the object is the element \<open>k\<close>, and \<open>None\<close> once the array holds another object in
  that place (\<^verbatim>\<open>updateButton\<close> assigns a new object to \<^verbatim>\<open>this.buttons[index]\<close>). A write
  through a reference that is \<open>None\<close> changes an object the store no longer has.
\<close>

fun findIndex :: "('a \<Rightarrow> bool) \<Rightarrow> 'a list \<Rightarrow> nat option" where
  "findIndex P [] = None"
| "findIndex P (x # xs) = (if P x then Some 0 else map_option Suc (findIndex P xs))"

type_synonym reference = "nat option"

section \<open>The animation loop (\<^verbatim>\<open>startAnimationLoop\<close>)\<close>

text \<open>
  One frame of \<^verbatim>\<open>loop\<close>, at wall-clock time \<open>now\<close>. The loop re-arms itself with
  \<^verbatim>\<open>requestAnimationFrame\<close> for ever; a run of it is the list of the times of its frames.
\<close>

definition loop_entry :: "int \<Rightarrow> int option \<Rightarrow> int \<times> AudioProgress \<Rightarrow> int \<times> AudioProgress" where
  "loop_entry now seeking e =
     (case e of (instanceId, progress) \<Rightarrow>
        if seeking = Some instanceId then (instanceId, progress)
        else if \<not> is_paused progress then
          (let elapsedSinceSync = now - last_sync_time progress;
               projected = last_sync_pos progress + elapsedSinceSync
           in (instanceId, progress\<lparr>position_ms := min (duration_ms progress) projected\<rparr>))
        else (instanceId, progress))"

definition loop :: "int \<Rightarrow> AudioStore \<Rightarrow> AudioStore" where
  "loop now s =
     s\<lparr>activeProgresses := map (loop_entry now (seekingInstanceId s)) (activeProgresses s)\<rparr>"

definition startAnimationLoop :: "int list \<Rightarrow> AudioStore \<Rightarrow> AudioStore" where
  "startAnimationLoop frames s = fold loop frames s"

section \<open>The event listeners (\<^verbatim>\<open>setupListeners\<close>)\<close>

text \<open>
  The \<^verbatim>\<open>audio-progress\<close> handler has two early returns before it consumes the
  payload; the model records which path was taken.
\<close>

datatype disposition = Ignored_seeking | Discarded_stale | Applied

text \<open>Lines 148 to 174: the payload is consumed.\<close>

definition apply_progress :: "AudioProgress \<Rightarrow> int \<Rightarrow> AudioStore \<Rightarrow> AudioStore" where
  "apply_progress payload now s =
     (let s1 =
        (case map_of (activeProgresses s) (instance_id payload) of
           Some existing \<Rightarrow>
             (let e1 = existing\<lparr>last_sync_pos := position_ms payload,
                                last_sync_time := now,
                                is_paused := is_paused payload,
                                duration_ms := duration_ms payload\<rparr>;
                  e2 = (if is_paused payload then e1\<lparr>position_ms := position_ms payload\<rparr> else e1);
                  s' = s\<lparr>activeProgresses :=
                          AList.update (instance_id payload) e2 (activeProgresses s)\<rparr>
              in if is_paused payload \<and> list_all (\<lambda>e. is_paused (snd e)) (activeProgresses s')
                 then s'\<lparr>masterLevels := \<lparr>peak = 0, rms = 0\<rparr>\<rparr>
                 else s')
         | None \<Rightarrow>
             s\<lparr>activeProgresses :=
                 AList.update (instance_id payload)
                   (payload\<lparr>last_sync_time := now, last_sync_pos := position_ms payload\<rparr>)
                   (activeProgresses s)\<rparr>)
      in s1\<lparr>buttons :=
              update_first (\<lambda>b. number_toString (id_b b) = id_p payload)
                (\<lambda>b. b\<lparr>isPaused := is_paused payload\<rparr>) (buttons s1)\<rparr>)"

definition audio_progress_step ::
    "AudioProgress \<Rightarrow> int \<Rightarrow> AudioStore \<Rightarrow> disposition \<times> AudioStore" where
  "audio_progress_step payload now s =
     (if seekingInstanceId s = Some (instance_id payload) then (Ignored_seeking, s)
      else
        (case map_of (seekRecovery s) (instance_id payload) of
           Some recoveryTarget \<Rightarrow>
             if position_ms payload \<ge> recoveryTarget - 100
             then (Applied,
                   apply_progress payload now
                     (s\<lparr>seekRecovery := AList.delete (instance_id payload) (seekRecovery s)\<rparr>))
             else (Discarded_stale, s)
         | None \<Rightarrow> (Applied, apply_progress payload now s)))"

definition audio_progress :: "AudioProgress \<Rightarrow> int \<Rightarrow> AudioStore \<Rightarrow> AudioStore" where
  "audio_progress payload now s = snd (audio_progress_step payload now s)"

definition audio_finished :: "int \<Rightarrow> AudioStore \<Rightarrow> AudioStore" where
  "audio_finished instanceId s =
     (case map_of (activeProgresses s) instanceId of
        None \<Rightarrow> s
      | Some progress \<Rightarrow>
          s\<lparr>buttons :=
              update_first (\<lambda>b. number_toString (id_b b) = id_p progress)
                (\<lambda>b. if activeInstances b > 0
                      then b\<lparr>activeInstances := activeInstances b - 1\<rparr> else b)
                (buttons s),
            activeProgresses := AList.delete instanceId (activeProgresses s)\<rparr>)"

section \<open>Store actions\<close>

text \<open>
  \<^verbatim>\<open>saveSettings\<close> writes the persisted part of the store to \<^verbatim>\<open>store.bin\<close>. The file is
  what the last \<^verbatim>\<open>store.save()\<close> that was reached wrote; an exception anywhere in the
  \<^verbatim>\<open>try\<close> is caught and leaves the file as it was. Only the keys of the fields modelled
  here are kept. Toasts and console output are left out.
\<close>

record SavedButton =
  saved_id :: int
  saved_path :: "string option"
  saved_name :: string
  saved_volume :: real
  saved_color :: string

record SavedSettings =
  saved_buttons :: "SavedButton list"
  saved_masterVolume :: real
  saved_currentDevice :: string

definition saveSettings :: "bool \<Rightarrow> AudioStore \<Rightarrow> SavedSettings option \<Rightarrow> SavedSettings option" where
  "saveSettings ok s file =
     (if ok then
        Some \<lparr>saved_buttons =
                 map (\<lambda>b. \<lparr>saved_id = id_b b, saved_path = path b, saved_name = name_b b,
                            saved_volume = volume b, saved_color = color b\<rparr>) (buttons s),
              saved_masterVolume = masterVolume s,
              saved_currentDevice = currentDevice s\<rparr>
      else file)"

definition setOutputDevice ::
    "string \<Rightarrow> unit promise \<Rightarrow> bool \<Rightarrow> AudioStore \<times> SavedSettings option
       \<Rightarrow> AudioStore \<times> SavedSettings option" where
  "setOutputDevice deviceName r saved w =
     (case w of (s, file) \<Rightarrow>
        (case r of
           Rejected \<Rightarrow> (s, file)
         | Resolved _ \<Rightarrow>
             (let s' = s\<lparr>currentDevice := deviceName\<rparr>
              in (s', saveSettings saved s' file))))"

definition setMasterVolume ::
    "real \<Rightarrow> unit promise \<Rightarrow> bool \<Rightarrow> AudioStore \<times> SavedSettings option
       \<Rightarrow> AudioStore \<times> SavedSettings option" where
  "setMasterVolume vol r saved w =
     (case w of (s, file) \<Rightarrow>
        (let s' = s\<lparr>masterVolume := vol\<rparr>
         in case r of
              Rejected \<Rightarrow> (s', file)
            | Resolved _ \<Rightarrow> (s', saveSettings saved s' file)))"

text \<open>
  \<^verbatim>\<open>playSound\<close>: the part before the \<^verbatim>\<open>await\<close> gives the reference to the button that
  \<^verbatim>\<open>find\<close> returned, the state in which \<^verbatim>\<open>play_sound\<close> is invoked and the command (\<open>None\<close>
  for the early return on a missing button or a falsy path); the part after it is the
  \<^verbatim>\<open>catch\<close>, which decrements the object that was found before the \<^verbatim>\<open>await\<close>.
\<close>

definition playSound_begin ::
    "int \<Rightarrow> AudioStore \<Rightarrow> (reference \<times> AudioStore \<times> command) option" where
  "playSound_begin buttonId s =
     (case find (\<lambda>b. id_b b = buttonId) (buttons s) of
        None \<Rightarrow> None
      | Some button \<Rightarrow>
          (case path button of
             None \<Rightarrow> None
           | Some p \<Rightarrow>
               if p = [] then None
               else Some
                 (findIndex (\<lambda>b. id_b b = buttonId) (buttons s),
                  s\<lparr>buttons :=
                      update_first (\<lambda>b. id_b b = buttonId)
                        (\<lambda>b. b\<lparr>activeInstances := activeInstances b + 1, isPaused := False\<rparr>)
                        (buttons s)\<rparr>,
                  play_sound (number_toString buttonId) p (name_b button) (volume button))))"

definition playSound_settle :: "reference \<Rightarrow> unit promise \<Rightarrow> AudioStore \<Rightarrow> AudioStore" where
  "playSound_settle button r s =
     (case r of
        Resolved _ \<Rightarrow> s
      | Rejected \<Rightarrow>
          (case button of
             None \<Rightarrow> s
           | Some k \<Rightarrow>
               s\<lparr>buttons :=
                   (buttons s)[k := (buttons s ! k)
                      \<lparr>activeInstances := activeInstances (buttons s ! k) - 1\<rparr>]\<rparr>))"

definition togglePauseInstance :: "int \<Rightarrow> bool promise \<Rightarrow> AudioStore \<Rightarrow> AudioStore" where
  "togglePauseInstance instanceId r s =
     (case r of
        Rejected \<Rightarrow> s
      | Resolved paused \<Rightarrow>
          (case map_of (activeProgresses s) instanceId of
             None \<Rightarrow> s
           | Some progress \<Rightarrow>
               s\<lparr>activeProgresses :=
                   AList.update instanceId (progress\<lparr>is_paused := paused\<rparr>)
                     (activeProgresses s)\<rparr>))"

definition stopInstance :: "int \<Rightarrow> unit promise \<Rightarrow> AudioStore \<Rightarrow> AudioStore" where
  "stopInstance instanceId r s =
     (case r of
        Rejected \<Rightarrow> s
      | Resolved _ \<Rightarrow>
          (case map_of (activeProgresses s) instanceId of
             None \<Rightarrow> s
           | Some progress \<Rightarrow>
               s\<lparr>buttons :=
                   update_first (\<lambda>b. number_toString (id_b b) = id_p progress)
                     (\<lambda>b. if activeInstances b > 0
                           then b\<lparr>activeInstances := activeInstances b - 1\<rparr> else b)
                     (buttons s),
                 activeProgresses := AList.delete instanceId (activeProgresses s)\<rparr>))"

definition stopAll :: "unit promise \<Rightarrow> AudioStore \<Rightarrow> AudioStore" where
  "stopAll r s =
     (case r of
        Rejected \<Rightarrow> s
      | Resolved _ \<Rightarrow>
          s\<lparr>buttons := map (\<lambda>b. b\<lparr>activeInstances := 0, isPaused := False\<rparr>) (buttons s),
            activeProgresses := []\<rparr>)"

text \<open>
  \<^verbatim>\<open>updateButton\<close>: the button is replaced by \<^verbatim>\<open>{...current, ...updates}\<close>; a key that
  \<^verbatim>\<open>updates\<close> does not have keeps its value. (The unawaited \<^verbatim>\<open>saveSettings\<close> is left out.)
\<close>

record SoundButtonUpdates =
  upd_id :: "int option"
  upd_path :: "string option option"
  upd_name :: "string option"
  upd_volume :: "real option"
  upd_color :: "string option"
  upd_isPaused :: "bool option"
  upd_activeInstances :: "int option"

definition spread :: "SoundButton \<Rightarrow> SoundButtonUpdates \<Rightarrow> SoundButton" where
  "spread current updates =
     \<lparr>id_b = (case upd_id updates of None \<Rightarrow> id_b current | Some v \<Rightarrow> v),
      path = (case upd_path updates of None \<Rightarrow> path current | Some v \<Rightarrow> v),
      name_b = (case upd_name updates of None \<Rightarrow> name_b current | Some v \<Rightarrow> v),
      volume = (case upd_volume updates of None \<Rightarrow> volume current | Some v \<Rightarrow> v),
      color = (case upd_color updates of None \<Rightarrow> color current | Some v \<Rightarrow> v),
      isPaused = (case upd_isPaused updates of None \<Rightarrow> isPaused current | Some v \<Rightarrow> v),
      activeInstances =
        (case upd_activeInstances updates of None \<Rightarrow> activeInstances current | Some v \<Rightarrow> v)\<rparr>"

definition updateButton :: "int \<Rightarrow> SoundButtonUpdates \<Rightarrow> AudioStore \<Rightarrow> AudioStore" where
  "updateButton i updates s =
     s\<lparr>buttons := update_first (\<lambda>b. id_b b = i) (\<lambda>current. spread current updates) (buttons s)\<rparr>"

text \<open>
  \<^verbatim>\<open>reset\<close> of a button (GlowButton.vue, src/unnamed/part_001), after the sound file is
  deleted.
\<close>

definition reset :: "int \<Rightarrow> AudioStore \<Rightarrow> AudioStore" where
  "reset i s =
     updateButton i
       \<lparr>upd_id = None, upd_path = Some None,
        upd_name = Some (''Button '' @ number_toString (i + 1)),
        upd_volume = Some 0.5, upd_color = None,
        upd_isPaused = Some False, upd_activeInstances = Some 0\<rparr> s"

text \<open>
  Handlers that can run while \<^verbatim>\<open>play_sound\<close> is pending, and what each does to the store and to the
  reference that \<^verbatim>\<open>playSound\<close> holds: \<^verbatim>\<open>updateButton\<close> puts a new object in the place of
  the button it finds; the two listeners change the objects where they are.
\<close>

datatype meanwhile =
  Updated int SoundButtonUpdates
  | Finished_event int
  | Progress_event AudioProgress int

fun meanwhile_step :: "meanwhile \<Rightarrow> reference \<times> AudioStore \<Rightarrow> reference \<times> AudioStore" where
  "meanwhile_step (Updated i updates) (button, s) =
     (if button \<noteq> None \<and> button = findIndex (\<lambda>b. id_b b = i) (buttons s) then None else button,
      updateButton i updates s)"
| "meanwhile_step (Finished_event instanceId) (button, s) = (button, audio_finished instanceId s)"
| "meanwhile_step (Progress_event payload now) (button, s) = (button, audio_progress payload now s)"

definition playSound_interleaved ::
    "int \<Rightarrow> meanwhile list \<Rightarrow> unit promise \<Rightarrow> AudioStore \<Rightarrow> AudioStore" where
  "playSound_interleaved buttonId ms r s =
     (case playSound_begin buttonId s of
        None \<Rightarrow> s
      | Some (button, s1, c) \<Rightarrow>
          (case fold meanwhile_step ms (button, s1) of
             (button', s2) \<Rightarrow> playSound_settle button' r s2))"

text \<open>\<^verbatim>\<open>playSound\<close> with nothing else running while the command is pending.\<close>

definition playSound :: "int \<Rightarrow> unit promise \<Rightarrow> AudioStore \<Rightarrow> AudioStore" where
  "playSound buttonId r s = playSound_interleaved buttonId [] r s"

section \<open>The seek gesture (App.vue, src/unnamed/part_002)\<close>

record App =
  store :: AudioStore
  localSeekValue :: "int option"
  wasPlayingBeforeSeek :: "(int \<times> bool) list"

definition handleSeek :: "int \<Rightarrow> int list \<Rightarrow> App \<Rightarrow> App" where
  "handleSeek instanceId v a =
     (case v of
        [] \<Rightarrow> a
      | v0 # _ \<Rightarrow>
          if seekingInstanceId (store a) = Some instanceId
          then a\<lparr>localSeekValue := Some v0\<rparr> else a)"

definition handleSeekStart :: "int \<Rightarrow> bool promise \<Rightarrow> App \<Rightarrow> App" where
  "handleSeekStart instanceId r a =
     (case map_of (activeProgresses (store a)) instanceId of
        None \<Rightarrow> a
      | Some item \<Rightarrow>
          (let wasPlaying = \<not> is_paused item;
               a1 = a\<lparr>store := (store a)\<lparr>seekingInstanceId := Some instanceId\<rparr>,
                      localSeekValue := Some (position_ms item),
                      wasPlayingBeforeSeek :=
                        AList.update instanceId wasPlaying (wasPlayingBeforeSeek a)\<rparr>
           in if wasPlaying
              then a1\<lparr>store := togglePauseInstance instanceId r (store a1)\<rparr>
              else a1))"

text \<open>
  \<^verbatim>\<open>handleSeekEnd\<close>, up to \<^verbatim>\<open>await invoke("seek_instance", ...)\<close>: the final position, the
  state in which the command is invoked, and the command. \<^verbatim>\<open>Math.round\<close> is the
  identity on the integers the slider gives.
\<close>

definition handleSeekEnd_begin :: "int \<Rightarrow> App \<Rightarrow> (int \<times> App \<times> command) option" where
  "handleSeekEnd_begin instanceId a =
     (case map_of (activeProgresses (store a)) instanceId of
        None \<Rightarrow> None
      | Some item \<Rightarrow>
          (case localSeekValue a of
             None \<Rightarrow> None
           | Some finalPos \<Rightarrow>
               Some (finalPos,
                     a\<lparr>store := (store a)\<lparr>seekRecovery :=
                          AList.update instanceId finalPos (seekRecovery (store a))\<rparr>\<rparr>,
                     seek_instance instanceId finalPos)))"

text \<open>\<^verbatim>\<open>item.position_ms = finalPos\<close>, once the command has resolved.\<close>

definition handleSeekEnd_seeked :: "int \<Rightarrow> int \<Rightarrow> App \<Rightarrow> App" where
  "handleSeekEnd_seeked instanceId finalPos a =
     (case map_of (activeProgresses (store a)) instanceId of
        None \<Rightarrow> a
      | Some item \<Rightarrow>
          a\<lparr>store := (store a)\<lparr>activeProgresses :=
               AList.update instanceId (item\<lparr>position_ms := finalPos\<rparr>)
                 (activeProgresses (store a))\<rparr>\<rparr>)"

text \<open>The rest of the handler: resume when it was playing, then leave the seeking mode.\<close>

definition handleSeekEnd_rest :: "int \<Rightarrow> bool option \<Rightarrow> bool promise \<Rightarrow> App \<Rightarrow> App" where
  "handleSeekEnd_rest instanceId wasPlaying r a =
     (let resume =
            (wasPlaying = Some True \<and>
             (case map_of (activeProgresses (store a)) instanceId of
                None \<Rightarrow> False
              | Some item \<Rightarrow> is_paused item));
          a2 = (if resume then a\<lparr>store := togglePauseInstance instanceId r (store a)\<rparr> else a)
      in a2\<lparr>wasPlayingBeforeSeek := AList.delete instanceId (wasPlayingBeforeSeek a2),
            store := (store a2)\<lparr>seekingInstanceId := None\<rparr>,
            localSeekValue := None\<rparr>)"

text \<open>
  The whole handler. The \<^verbatim>\<open>await invoke("seek_instance", ...)\<close> stands in no \<^verbatim>\<open>try\<close>: when
  it rejects, the handler ends there, in the state in which the command was invoked.
\<close>

definition handleSeekEnd :: "int \<Rightarrow> unit promise \<Rightarrow> bool promise \<Rightarrow> App \<Rightarrow> App" where
  "handleSeekEnd instanceId seek_r toggle_r a =
     (let wasPlaying = map_of (wasPlayingBeforeSeek a) instanceId
      in case handleSeekEnd_begin instanceId a of
           None \<Rightarrow> handleSeekEnd_rest instanceId wasPlaying toggle_r a
         | Some (finalPos, a1, c) \<Rightarrow>
             (case seek_r of
                Rejected \<Rightarrow> a1
              | Resolved _ \<Rightarrow>
                  handleSeekEnd_rest instanceId wasPlaying toggle_r
                    (handleSeekEnd_seeked instanceId finalPos a1)))"

text \<open>
  What the slider of an entry shows (its \<^verbatim>\<open>:model-value\<close>), and so does the progress
  bar of the footer.
\<close>

definition slider_model_value :: "App \<Rightarrow> AudioProgress \<Rightarrow> int" where
  "slider_model_value a item =
     (if seekingInstanceId (store a) = Some (instance_id item) \<and> localSeekValue a \<noteq> None
      then the (localSeekValue a) else position_ms item)"

text \<open>The getter \<^verbatim>\<open>queueList\<close>, and the sliders of the queue, one for each entry.\<close>

definition queueList :: "AudioStore \<Rightarrow> AudioProgress list" where
  "queueList s = rev (map snd (activeProgresses s))"

definition sliders :: "App \<Rightarrow> int list" where
  "sliders a = map (slider_model_value a) (queueList (store a))"

section \<open>The engine's side of \<^verbatim>\<open>stop_all\<close>\<close>

text \<open>
  Modelled from the spec: the engine behind \<^verbatim>\<open>invoke("stop_all")\<close> (src-tauri/src/audio.rs)
  is not among the sources. The spec gives \<^verbatim>\<open>stop_all() -> ()\<close>: it removes every active
  instance and always succeeds, even with zero active instances. The engine's active
  set is the list of its instance ids; the result is the promise the store awaits and
  the new active set.
\<close>

definition engine_stop_all :: "int list \<Rightarrow> unit promise \<times> int list" where
  "engine_stop_all active = (Resolved (), [])"

section \<open>The engine's side of \<^verbatim>\<open>stop_instance\<close> and of natural completion\<close>

text \<open>
  Modelled from the spec: the engine (src-tauri/src/audio.rs) is not among the sources. The
  spec gives \<^verbatim>\<open>stop(instance_id) -> () | InstanceError::NotFound\<close>: it removes the instance
  from the active set, and no \<^verbatim>\<open>finished\<close> event is emitted for an explicit stop. Natural
  completion removes the instance and emits one \<^verbatim>\<open>finished\<close> event that carries only the
  \<^verbatim>\<open>instance_id\<close>. The results are the promise (for the command), the new active set and
  the events emitted.
\<close>

datatype emitted = audio_finished_event int

definition engine_stop :: "int \<Rightarrow> int list \<Rightarrow> unit promise \<times> int list \<times> emitted list" where
  "engine_stop instanceId active =
     (if instanceId \<in> set active then (Resolved (), removeAll instanceId active, [])
      else (Rejected, active, []))"

definition engine_complete :: "int \<Rightarrow> int list \<Rightarrow> int list \<times> emitted list" where
  "engine_complete instanceId active =
     (if instanceId \<in> set active
      then (removeAll instanceId active, [audio_finished_event instanceId])
      else (active, []))"

text \<open>
  The store's side, from the source: \<^verbatim>\<open>listen("audio-finished", ...)\<close> runs the handler on
  every such event; \<open>stop\<close> is \<^verbatim>\<open>stopInstance\<close> with the engine behind its command, and
  \<open>complete\<close> is a natural completion. Both give the events emitted, the engine's active
  set and the store.
\<close>

definition deliver :: "emitted \<Rightarrow> AudioStore \<Rightarrow> AudioStore" where
  "deliver e s = (case e of audio_finished_event instanceId \<Rightarrow> audio_finished instanceId s)"

definition stop :: "int \<Rightarrow> int list \<times> AudioStore \<Rightarrow> emitted list \<times> int list \<times> AudioStore" where
  "stop instanceId w =
     (case w of (active, s) \<Rightarrow>
        (case engine_stop instanceId active of
           (r, active', es) \<Rightarrow> (es, active', fold deliver es (stopInstance instanceId r s))))"

definition complete :: "int \<Rightarrow> int list \<times> AudioStore \<Rightarrow> emitted list \<times> int list \<times> AudioStore" where
  "complete instanceId w =
     (case w of (active, s) \<Rightarrow>
        (case engine_complete instanceId active of
           (active', es) \<Rightarrow> (es, active', fold deliver es s)))"

section \<open>Runs of events\<close>

text \<open>
  The snapshots that a run of \<^verbatim>\<open>audio-progress\<close> events (payload and time of arrival,
  in the order of arrival) gets past the two early returns, and the store after the run.
\<close>

fun accepted :: "(AudioProgress \<times> int) list \<Rightarrow> AudioStore \<Rightarrow> AudioProgress list" where
  "accepted [] s = []"
| "accepted ((payload, now) # evs) s =
     (case audio_progress_step payload now s of
        (d, s') \<Rightarrow> (if d = Applied then [payload] else []) @ accepted evs s')"

fun progress_run :: "(AudioProgress \<times> int) list \<Rightarrow> AudioStore \<Rightarrow> AudioStore" where
  "progress_run [] s = s"
| "progress_run ((payload, now) # evs) s = progress_run evs (audio_progress payload now s)"

text \<open>
  What reaches the store while a slider is held: frames of the animation loop and
  \<^verbatim>\<open>audio-progress\<close> events, in any order.
\<close>

datatype event = Frame int | Progress AudioProgress int

fun dispatch :: "event \<Rightarrow> AudioStore \<Rightarrow> AudioStore" where
  "dispatch (Frame now) s = loop now s"
| "dispatch (Progress payload now) s = audio_progress payload now s"

definition run :: "event list \<Rightarrow> AudioStore \<Rightarrow> AudioStore" where
  "run evs s = fold dispatch evs s"

section \<open>A scenario: one clip of 8000 ms playing on button 3\<close>

text \<open>
  The store after \<^verbatim>\<open>init\<close> with nothing saved: the defaults of \<^verbatim>\<open>state()\<close> and the buttons
  that the loop of \<^verbatim>\<open>init\<close> pushes, \<^verbatim>\<open>itemsPerPage * totalPages\<close> of them, with the ids
  \<open>0, 1, 2, ...\<close>.
\<close>

definition default_button :: "int \<Rightarrow> SoundButton" where
  "default_button i =
     \<lparr>id_b = i, path = None, name_b = ''Button '' @ number_toString (i + 1), volume = 0.5,
      color = ''bg-secondary'', isPaused = False, activeInstances = 0\<rparr>"

fun init_buttons :: "int \<Rightarrow> nat \<Rightarrow> SoundButton list" where
  "init_buttons i 0 = []"
| "init_buttons i (Suc n) = default_button i # init_buttons (i + 1) n"

definition initial_store :: AudioStore where
  "initial_store =
     \<lparr>buttons = init_buttons 0 (16 * 4), masterVolume = 1.0, currentDevice = ''Default'',
      activeProgresses = [], seekingInstanceId = None, seekRecovery = [],
      masterLevels = \<lparr>peak = 0, rms = 0\<rparr>\<rparr>"

text \<open>
  A snapshot of instance 1 of button 3 at a given position, playing. (The engine sends
  no \<^verbatim>\<open>last_sync_time\<close> and \<^verbatim>\<open>last_sync_pos\<close>; the handler never reads them.)
\<close>

definition snapshot :: "int \<Rightarrow> AudioProgress" where
  "snapshot pos =
     \<lparr>id_p = ''3'', instance_id = 1, name_p = ''Boom'', position_ms = pos,
      duration_ms = 8000, is_paused = False, last_sync_time = 0, last_sync_pos = 0\<rparr>"

text \<open>
  A file is put on button 3 (\<^verbatim>\<open>updateButtonWithCopy\<close>), the button is pressed, and at time
  1000 the snapshot of the new instance 1 arrives with the clip at 2000 ms.
\<close>

definition loaded_store :: AudioStore where
  "loaded_store =
     updateButton 3
       \<lparr>upd_id = None, upd_path = Some (Some ''boom.wav''), upd_name = Some ''Boom'',
        upd_volume = None, upd_color = None, upd_isPaused = None,
        upd_activeInstances = None\<rparr> initial_store"

definition started_store :: AudioStore where
  "started_store = playSound 3 (Resolved ()) loaded_store"

definition playing_store :: AudioStore where
  "playing_store = audio_progress (snapshot 2000) 1000 started_store"

text \<open>The volume slider of button 3 is moved (\<^verbatim>\<open>handleVolumeChange\<close>, GlowButton.vue).\<close>

definition volume_change :: SoundButtonUpdates where
  "volume_change =
     \<lparr>upd_id = None, upd_path = None, upd_name = None, upd_volume = Some 0.8,
      upd_color = None, upd_isPaused = None, upd_activeInstances = None\<rparr>"

text \<open>Button 3 and the entry of instance 1 in that store.\<close>

definition boom_button :: SoundButton where
  "boom_button =
     \<lparr>id_b = 3, path = Some ''boom.wav'', name_b = ''Boom'', volume = 0.5,
      color = ''bg-secondary'', isPaused = False, activeInstances = 1\<rparr>"

definition boom_progress :: AudioProgress where
  "boom_progress =
     \<lparr>id_p = ''3'', instance_id = 1, name_p = ''Boom'', position_ms = 2000,
      duration_ms = 8000, is_paused = False, last_sync_time = 1000, last_sync_pos = 2000\<rparr>"

definition playing_app :: App where
  "playing_app = \<lparr>store = playing_store, localSeekValue = None, wasPlayingBeforeSeek = []\<rparr>"

text \<open>The slider of instance 1 is pressed (the engine pauses it) and dragged to 5000 ms.\<close>

definition dragging_app :: App where
  "dragging_app = handleSeek 1 [5000] (handleSeekStart 1 (Resolved True) playing_app)"

text \<open>The slider is released; the engine seeks and resumes.\<close>

definition seeked_app :: App where
  "seeked_app = handleSeekEnd 1 (Resolved ()) (Resolved False) dragging_app"

text \<open>
  The state in which \<^verbatim>\<open>handleSeekEnd\<close> invokes \<^verbatim>\<open>seek_instance\<close> and waits for it: the target
  is recorded, the slider still counts as held.
\<close>

definition releasing_app :: App where
  "releasing_app =
     (case handleSeekEnd_begin 1 dragging_app of
        None \<Rightarrow> dragging_app
      | Some (finalPos, a1, c) \<Rightarrow> a1)"

section \<open>Facts about the helpers\<close>

lemma length_update_first: "length (update_first P f xs) = length xs"
  by (induction xs) auto

lemma find_update_first:
  "(\<And>x. P x \<Longrightarrow> P (f x)) \<Longrightarrow> find P (update_first P f xs) = map_option f (find P xs)"
  by (induction xs) auto

lemma update_first_twice:
  "(\<And>x. P x \<Longrightarrow> P (f x)) \<Longrightarrow>
     update_first P g (update_first P f xs) = update_first P (\<lambda>x. g (f x)) xs"
  by (induction xs) auto

lemma map_update_first_same:
  "(\<And>x. h (f x) = h x) \<Longrightarrow> map h (update_first P f xs) = map h xs"
  by (induction xs) auto

lemma findIndex_Some:
  "findIndex P xs = Some k \<Longrightarrow>
     k < length xs \<and> P (xs ! k) \<and> find P xs = Some (xs ! k) \<and>
     update_first P f xs = xs[k := f (xs ! k)]"
proof (induction xs arbitrary: k)
  case Nil
  then show ?case by simp
next
  case (Cons x xs)
  show ?case
  proof (cases "P x")
    case True
    then show ?thesis using Cons.prems by simp
  next
    case False
    then obtain j where j: "findIndex P xs = Some j" "k = Suc j"
      using Cons.prems by auto
    then show ?thesis using Cons.IH[OF j(1)] False by simp
  qed
qed

lemma find_Some_findIndex: "find P xs = Some x \<Longrightarrow> \<exists>k. findIndex P xs = Some k \<and> xs ! k = x"
  by (induction xs) (auto split: if_splits)

lemma find_list_update_first:
  "findIndex P xs = Some k \<Longrightarrow> P y \<Longrightarrow> find P (xs[k := y]) = Some y"
proof (induction xs arbitrary: k)
  case Nil
  then show ?case by simp
next
  case (Cons x xs)
  show ?case
  proof (cases "P x")
    case True
    then show ?thesis using Cons.prems by simp
  next
    case False
    then obtain j where j: "findIndex P xs = Some j" "k = Suc j"
      using Cons.prems by auto
    then show ?thesis using Cons.IH[OF j(1) Cons.prems(2)] False by simp
  qed
qed

section \<open>The scenario, evaluated\<close>

lemma number_toString_0123:
  "number_toString 0 = ''0''" "number_toString 1 = ''1''" "number_toString 2 = ''2''"
  "number_toString 3 = ''3''"
  by (simp_all add: number_toString_def nat_toString.simps digit_char_def)

lemma init_buttons_64:
  "init_buttons 0 64 =
     default_button 0 # default_button 1 # default_button 2 # default_button 3 #
     init_buttons 4 60"
  by (simp add: eval_nat_numeral)

lemma default_button_sel:
  "id_b (default_button i) = i" "path (default_button i) = None"
  by (simp_all add: default_button_def)

lemma loaded_store_fields:
  "buttons loaded_store =
     default_button 0 # default_button 1 # default_button 2 #
     (default_button 3)\<lparr>path := Some ''boom.wav'', name_b := ''Boom''\<rparr> #
     init_buttons 4 60"
  "activeProgresses loaded_store = []"
  "seekingInstanceId loaded_store = None"
  "seekRecovery loaded_store = []"
  unfolding loaded_store_def updateButton_def initial_store_def
  by (simp_all add: init_buttons_64 default_button_sel spread_def default_button_def)

lemma started_store_fields:
  "buttons started_store =
     default_button 0 # default_button 1 # default_button 2 # boom_button # init_buttons 4 60"
  "activeProgresses started_store = []"
  "seekingInstanceId started_store = None"
  "seekRecovery started_store = []"
  unfolding started_store_def playSound_def playSound_interleaved_def playSound_begin_def
    playSound_settle_def
  by (simp_all add: loaded_store_fields default_button_sel boom_button_def default_button_def)

lemma playing_store_fields:
  "buttons playing_store =
     default_button 0 # default_button 1 # default_button 2 # boom_button # init_buttons 4 60"
  "activeProgresses playing_store = [(1, boom_progress)]"
  "seekingInstanceId playing_store = None"
  "seekRecovery playing_store = []"
  unfolding playing_store_def audio_progress_def audio_progress_step_def apply_progress_def
  by (simp_all add: started_store_fields default_button_sel number_toString_0123 snapshot_def
      boom_progress_def boom_button_def)

lemma playing_store_owner:
  "find (\<lambda>b. id_b b = 3) (buttons playing_store) = Some boom_button"
  "find (\<lambda>b. number_toString (id_b b) = ''3'') (buttons playing_store) = Some boom_button"
  by (simp_all add: playing_store_fields default_button_sel number_toString_0123 boom_button_def)

lemma dragging_app_eval:
  "dragging_app =
     \<lparr>store = playing_store\<lparr>activeProgresses := [(1, boom_progress\<lparr>is_paused := True\<rparr>)],
                              seekingInstanceId := Some 1\<rparr>,
      localSeekValue = Some 5000, wasPlayingBeforeSeek = [(1, True)]\<rparr>"
  by (simp add: dragging_app_def handleSeek_def handleSeekStart_def playing_app_def
      playing_store_fields togglePauseInstance_def boom_progress_def Let_def)

lemma releasing_app_eval:
  "handleSeekEnd_begin 1 dragging_app = Some (5000, releasing_app, seek_instance 1 5000)"
  "releasing_app =
     \<lparr>store = playing_store\<lparr>activeProgresses := [(1, boom_progress\<lparr>is_paused := True\<rparr>)],
                              seekingInstanceId := Some 1, seekRecovery := [(1, 5000)]\<rparr>,
      localSeekValue = Some 5000, wasPlayingBeforeSeek = [(1, True)]\<rparr>"
  by (simp_all add: releasing_app_def handleSeekEnd_begin_def dragging_app_eval
      playing_store_fields)

lemma seeked_app_eval:
  "seeked_app =
     \<lparr>store = playing_store\<lparr>seekRecovery := [(1, 5000)],
                              activeProgresses := [(1, boom_progress\<lparr>position_ms := 5000\<rparr>)],
                              seekingInstanceId := None\<rparr>,
      localSeekValue = None, wasPlayingBeforeSeek = []\<rparr>"
proof -
  have wp: "map_of (wasPlayingBeforeSeek dragging_app) 1 = Some True"
    by (simp add: dragging_app_eval)
  have "seeked_app =
      handleSeekEnd_rest 1 (Some True) (Resolved False) (handleSeekEnd_seeked 1 5000 releasing_app)"
    by (simp add: seeked_app_def handleSeekEnd_def releasing_app_eval(1) wp)
  then show ?thesis
    by (simp add: releasing_app_eval(2) handleSeekEnd_seeked_def handleSeekEnd_rest_def
        togglePauseInstance_def boom_progress_def Let_def)
qed

section \<open>The animation loop\<close>

lemma map_of_loop_entry:
  "map_of (map (loop_entry now sk) xs) i =
     map_option (\<lambda>p. snd (loop_entry now sk (i, p))) (map_of xs i)"
  by (induction xs) (auto simp: loop_entry_def Let_def)

lemma loop_frame:
  assumes "map_of (activeProgresses s) i = Some p"
  shows "map_of (activeProgresses (loop now s)) i =
     Some (if seekingInstanceId s = Some i \<or> is_paused p then p
           else p\<lparr>position_ms := min (duration_ms p) (last_sync_pos p + (now - last_sync_time p))\<rparr>)"
  using assms by (simp add: loop_def map_of_loop_entry loop_entry_def Let_def)

lemma loop_seeking [simp]: "seekingInstanceId (loop now s) = seekingInstanceId s"
  by (simp add: loop_def)

lemma loop_seekRecovery [simp]: "seekRecovery (loop now s) = seekRecovery s"
  by (simp add: loop_def)

lemma startAnimationLoop_snoc:
  "startAnimationLoop (frames @ [now]) s = loop now (startAnimationLoop frames s)"
  by (simp add: startAnimationLoop_def)

lemma startAnimationLoop_seeking [simp]:
  "seekingInstanceId (startAnimationLoop frames s) = seekingInstanceId s"
  by (induction frames rule: rev_induct) (simp_all add: startAnimationLoop_snoc, simp add: startAnimationLoop_def)

text \<open>
  A run of frames changes nothing of an entry but its position, and not even that
  when the entry is paused or its slider is held.
\<close>

lemma startAnimationLoop_keeps:
  assumes "map_of (activeProgresses s) i = Some p"
  shows "\<exists>q. map_of (activeProgresses (startAnimationLoop frames s)) i = Some q \<and>
           q\<lparr>position_ms := position_ms p\<rparr> = p \<and>
           (is_paused p \<or> seekingInstanceId s = Some i \<longrightarrow> q = p)"
proof (induction frames rule: rev_induct)
  case Nil
  then show ?case using assms by (simp add: startAnimationLoop_def)
next
  case (snoc now frames)
  then obtain q where q: "map_of (activeProgresses (startAnimationLoop frames s)) i = Some q"
     "q\<lparr>position_ms := position_ms p\<rparr> = p"
     "is_paused p \<or> seekingInstanceId s = Some i \<longrightarrow> q = p" by blast
  have "is_paused (q\<lparr>position_ms := position_ms p\<rparr>) = is_paused p"
    by (simp only: q(2))
  then have eq: "is_paused q = is_paused p" by simp
  show ?case
    unfolding startAnimationLoop_snoc using loop_frame[OF q(1), of now] q(2,3) eq
    by auto
qed

text \<open>
  C3. Between snapshots, for an active instance whose slider is not held, after any run
  of frames of the animation loop that ends with a frame at time \<open>now\<close>: when the entry
  is not paused its \<open>position_ms\<close> is the minimum of \<open>duration_ms\<close> and
  \<open>last_sync_pos + (now - last_sync_time)\<close>, every other field being as it was; when it is
  paused the entry is exactly as it was before the run, so the position does not drift
  however many frames the pause lasts.
\<close>

theorem loop_extrapolates_unless_paused:
  assumes "map_of (activeProgresses s) i = Some p" and "seekingInstanceId s \<noteq> Some i"
  shows "map_of (activeProgresses (startAnimationLoop (frames @ [now]) s)) i =
     Some (if is_paused p then p
           else p\<lparr>position_ms :=
                    min (duration_ms p) (last_sync_pos p + (now - last_sync_time p))\<rparr>)"
proof -
  obtain q where q: "map_of (activeProgresses (startAnimationLoop frames s)) i = Some q"
     "q\<lparr>position_ms := position_ms p\<rparr> = p" "is_paused p \<longrightarrow> q = p"
    using startAnimationLoop_keeps[OF assms(1), of frames] by blast
  have sel: "is_paused q = is_paused p" "duration_ms q = duration_ms p"
      "last_sync_pos q = last_sync_pos p" "last_sync_time q = last_sync_time p"
    using arg_cong[OF q(2), of is_paused] arg_cong[OF q(2), of duration_ms]
      arg_cong[OF q(2), of last_sync_pos] arg_cong[OF q(2), of last_sync_time] by simp_all
  have upd: "q\<lparr>position_ms := x\<rparr> = p\<lparr>position_ms := x\<rparr>" for x
    using arg_cong[OF q(2), of "\<lambda>r. r\<lparr>position_ms := x\<rparr>"] by simp
  show ?thesis
    unfolding startAnimationLoop_snoc
    using loop_frame[OF q(1), of now] assms(2) q(3) sel upd by simp
qed

text \<open>
  The clip synchronised at 2000 ms at time 1000 shows 2500 ms after the frames at 1016
  and 1500; the same clip paused keeps its entry through both frames.
\<close>

theorem loop_extrapolates_unless_paused_witness:
  "map_of (activeProgresses playing_store) 1 = Some boom_progress \<and>
   seekingInstanceId playing_store \<noteq> Some 1 \<and>
   map_of (activeProgresses (startAnimationLoop [1016, 1500] playing_store)) 1 =
     Some (boom_progress\<lparr>position_ms := 2500\<rparr>) \<and>
   map_of (activeProgresses (startAnimationLoop [1016, 1500]
       (playing_store\<lparr>activeProgresses := [(1, boom_progress\<lparr>is_paused := True\<rparr>)]\<rparr>))) 1 =
     Some (boom_progress\<lparr>is_paused := True\<rparr>)"
proof -
  have h1: "map_of (activeProgresses playing_store) 1 = Some boom_progress"
    by (simp add: playing_store_fields)
  have h2: "seekingInstanceId playing_store \<noteq> Some 1"
    by (simp add: playing_store_fields)
  let ?s = "playing_store\<lparr>activeProgresses := [(1, boom_progress\<lparr>is_paused := True\<rparr>)]\<rparr>"
  have h3: "map_of (activeProgresses ?s) 1 = Some (boom_progress\<lparr>is_paused := True\<rparr>)"
    by simp
  have h4: "seekingInstanceId ?s \<noteq> Some 1"
    by (simp add: playing_store_fields)
  show ?thesis
    using h1 h2 loop_extrapolates_unless_paused[OF h1 h2, of "[1016]" 1500]
      loop_extrapolates_unless_paused[OF h3 h4, of "[1016]" 1500]
    by (simp add: boom_progress_def)
qed

section \<open>Stopping\<close>

lemma stopAll_rejected: "stopAll Rejected s = s"
  by (simp add: stopAll_def)

text \<open>
  C5. \<open>stop_all\<close> always succeeds and leaves the engine's active set empty, whatever the
  set was (so also when it was empty); and once \<open>stopAll\<close> has run on its result, for any
  prior state of the store, the table of active progresses is empty and every button
  (there are as many as before) has \<open>activeInstances = 0\<close> and \<open>isPaused = False\<close>.
\<close>

theorem stopAll_clears_everything:
  "fst (engine_stop_all active) = Resolved () \<and>
   snd (engine_stop_all active) = [] \<and>
   activeProgresses (stopAll (fst (engine_stop_all active)) s) = [] \<and>
   length (buttons (stopAll (fst (engine_stop_all active)) s)) = length (buttons s) \<and>
   list_all (\<lambda>b. activeInstances b = 0 \<and> \<not> isPaused b)
     (buttons (stopAll (fst (engine_stop_all active)) s))"
  by (simp add: stopAll_def engine_stop_all_def list_all_iff)

section \<open>Device and master volume\<close>

text \<open>
  C7. When \<open>set_audio_device\<close> fails, \<open>setOutputDevice\<close> leaves the store, and with it
  \<open>currentDevice\<close>, and the settings file as they were; when it succeeds,
  \<open>currentDevice\<close> is the new name.
\<close>

theorem setOutputDevice_keeps_device_on_failure:
  "setOutputDevice deviceName Rejected saved (s, file) = (s, file) \<and>
   currentDevice (fst (setOutputDevice deviceName (Resolved ()) saved (s, file))) = deviceName"
  by (simp add: setOutputDevice_def Let_def)

text \<open>
  C8. For any volume argument (0 included), whether \<open>update_master_volume\<close> and the save
  succeed or fail, \<open>setMasterVolume\<close> changes no field of the store but \<open>masterVolume\<close>:
  the stored volume of every button is as before, and the settings file is either
  untouched or holds those same per-button volumes.
\<close>

theorem setMasterVolume_changes_only_masterVolume:
  "fst (setMasterVolume vol r saved (s, file)) = s\<lparr>masterVolume := vol\<rparr> \<and>
   map volume (buttons (fst (setMasterVolume vol r saved (s, file)))) = map volume (buttons s) \<and>
   (snd (setMasterVolume vol r saved (s, file)) = file \<or>
    map_option (\<lambda>f. map saved_volume (saved_buttons f))
       (snd (setMasterVolume vol r saved (s, file))) = Some (map volume (buttons s)))"
  by (cases r) (simp_all add: setMasterVolume_def saveSettings_def comp_def Let_def)

section \<open>Playing\<close>

text \<open>
  With nothing else running while \<^verbatim>\<open>play_sound\<close> is pending, a rejected \<^verbatim>\<open>playSound\<close> on a
  button that is found and has a path leaves the counter of that button, and of every
  button, as it was: the command is invoked with the counter one higher, and the \<^verbatim>\<open>catch\<close>
  takes the increment back.
\<close>

lemma playSound_rejected_alone:
  assumes "find (\<lambda>b. id_b b = buttonId) (buttons s) = Some button"
    and "path button = Some p" and "p \<noteq> []"
  shows "(\<exists>k s1. playSound_begin buttonId s =
             Some (Some k, s1,
                   play_sound (number_toString buttonId) p (name_b button) (volume button)) \<and>
           map_option activeInstances (find (\<lambda>b. id_b b = buttonId) (buttons s1)) =
             Some (activeInstances button + 1)) \<and>
         map_option activeInstances
           (find (\<lambda>b. id_b b = buttonId) (buttons (playSound buttonId Rejected s))) =
         Some (activeInstances button) \<and>
         map activeInstances (buttons (playSound buttonId Rejected s)) =
         map activeInstances (buttons s)"
proof -
  let ?P = "\<lambda>b. id_b b = buttonId"
  let ?f = "\<lambda>b. b\<lparr>activeInstances := activeInstances b + 1, isPaused := False\<rparr>"
  obtain k where k: "findIndex ?P (buttons s) = Some k" "buttons s ! k = button"
    using find_Some_findIndex[OF assms(1)] by blast
  note ix = findIndex_Some[OF k(1), of ?f]
  have P: "?P button" using ix k(2) by simp
  let ?s1 = "s\<lparr>buttons := update_first ?P ?f (buttons s)\<rparr>"
  have b: "playSound_begin buttonId s =
      Some (Some k, ?s1, play_sound (number_toString buttonId) p (name_b button) (volume button))"
    using assms k(1) by (simp add: playSound_begin_def)
  have c1: "map_option activeInstances (find ?P (buttons ?s1)) = Some (activeInstances button + 1)"
    using assms(1) by (simp add: find_update_first)
  have after: "buttons (playSound buttonId Rejected s) = (buttons s)[k := button\<lparr>isPaused := False\<rparr>]"
    using ix k(2)
    by (simp add: playSound_def playSound_interleaved_def b playSound_settle_def)
  have c2: "map_option activeInstances (find ?P (buttons (playSound buttonId Rejected s))) =
      Some (activeInstances button)"
    using find_list_update_first[OF k(1), of "button\<lparr>isPaused := False\<rparr>"] P
    by (simp add: after)
  have "map activeInstances ((buttons s)[k := button\<lparr>isPaused := False\<rparr>]) =
      (map activeInstances (buttons s))[k := map activeInstances (buttons s) ! k]"
    using ix k(2) by (simp add: map_update)
  then have c3: "map activeInstances (buttons (playSound buttonId Rejected s)) =
      map activeInstances (buttons s)"
    by (simp add: after)
  show ?thesis using b c1 c2 c3 by blast
qed

text \<open>
  C9. The code misses the claim when the button object is replaced while \<^verbatim>\<open>play_sound\<close> is
  pending. Button 3 has a file and counts no instance. It is pressed; while the command
  is pending its volume slider is moved, and \<^verbatim>\<open>updateButton\<close> puts a new object, with the
  counter at 1, in its place; the command is rejected, and the \<^verbatim>\<open>catch\<close> decrements the
  object found before the \<^verbatim>\<open>await\<close>, which the store no longer holds. The counter of
  button 3 stays at 1, where it was 0 before the call. (With nothing in between it is 0
  again.)
\<close>

theorem playSound_rejected_after_update_keeps_increment:
  "map_option activeInstances (find (\<lambda>b. id_b b = 3) (buttons loaded_store)) = Some 0 \<and>
   map_option activeInstances
     (find (\<lambda>b. id_b b = 3)
        (buttons (playSound_interleaved 3 [Updated 3 volume_change] Rejected loaded_store))) =
     Some 1 \<and>
   map_option activeInstances
     (find (\<lambda>b. id_b b = 3) (buttons (playSound 3 Rejected loaded_store))) = Some 0"
proof -
  have ix: "findIndex (\<lambda>b. id_b b = 3) (buttons loaded_store) = Some 3"
    by (simp add: loaded_store_fields default_button_sel eval_nat_numeral)
  have before: "map_option activeInstances (find (\<lambda>b. id_b b = 3) (buttons loaded_store)) = Some 0"
    by (simp add: loaded_store_fields default_button_sel default_button_def)
  have alone: "map_option activeInstances
     (find (\<lambda>b. id_b b = 3) (buttons (playSound 3 Rejected loaded_store))) = Some 0"
    by (simp add: playSound_def playSound_interleaved_def playSound_begin_def
        playSound_settle_def loaded_store_fields default_button_sel default_button_def
        eval_nat_numeral)
  have between: "map_option activeInstances
     (find (\<lambda>b. id_b b = 3)
        (buttons (playSound_interleaved 3 [Updated 3 volume_change] Rejected loaded_store))) =
     Some 1"
    by (simp add: playSound_interleaved_def playSound_begin_def playSound_settle_def
        updateButton_def spread_def volume_change_def loaded_store_fields default_button_sel
        default_button_def eval_nat_numeral)
  show ?thesis using before alone between by simp
qed

section \<open>The \<^verbatim>\<open>audio-progress\<close> handler and the recovery target\<close>

lemma apply_progress_seeking [simp]:
  "seekingInstanceId (apply_progress payload now s) = seekingInstanceId s"
  by (simp add: apply_progress_def Let_def split: option.split)

lemma apply_progress_seekRecovery [simp]:
  "seekRecovery (apply_progress payload now s) = seekRecovery s"
  by (simp add: apply_progress_def Let_def split: option.split)

lemma apply_progress_other:
  "j \<noteq> instance_id payload \<Longrightarrow>
     map_of (activeProgresses (apply_progress payload now s)) j = map_of (activeProgresses s) j"
  by (simp add: apply_progress_def Let_def update_conv' split: option.split)

lemma apply_progress_entry:
  "\<exists>e. map_of (activeProgresses (apply_progress payload now s)) (instance_id payload) = Some e \<and>
        last_sync_pos e = position_ms payload \<and> last_sync_time e = now \<and>
        is_paused e = is_paused payload \<and> duration_ms e = duration_ms payload \<and>
        position_ms e =
          (case map_of (activeProgresses s) (instance_id payload) of
             None \<Rightarrow> position_ms payload
           | Some existing \<Rightarrow>
               if is_paused payload then position_ms payload else position_ms existing)"
  by (simp add: apply_progress_def Let_def update_conv' split: option.split)

lemma audio_progress_applied:
  "seekingInstanceId s \<noteq> Some (instance_id payload) \<Longrightarrow>
   map_of (seekRecovery s) (instance_id payload) = None \<Longrightarrow>
   audio_progress payload now s = apply_progress payload now s"
  by (simp add: audio_progress_def audio_progress_step_def)

lemma audio_progress_cleared:
  "seekingInstanceId s \<noteq> Some (instance_id payload) \<Longrightarrow>
   map_of (seekRecovery s) (instance_id payload) = Some t \<Longrightarrow>
   t - 100 \<le> position_ms payload \<Longrightarrow>
   audio_progress payload now s =
     apply_progress payload now
       (s\<lparr>seekRecovery := AList.delete (instance_id payload) (seekRecovery s)\<rparr>)"
  by (simp add: audio_progress_def audio_progress_step_def)

lemma apply_progress_activeProgresses:
  "activeProgresses (apply_progress payload now s) =
     AList.update (instance_id payload)
       (case map_of (activeProgresses s) (instance_id payload) of
          None \<Rightarrow> payload\<lparr>last_sync_time := now, last_sync_pos := position_ms payload\<rparr>
        | Some existing \<Rightarrow>
            (let e1 = existing\<lparr>last_sync_pos := position_ms payload, last_sync_time := now,
                               is_paused := is_paused payload,
                               duration_ms := duration_ms payload\<rparr>
             in if is_paused payload then e1\<lparr>position_ms := position_ms payload\<rparr> else e1))
       (activeProgresses s)"
  by (simp add: apply_progress_def Let_def split: option.split)

lemma instance_id_snapshot: "instance_id (snapshot pos) = 1"
  by (simp add: snapshot_def)

lemma position_ms_snapshot: "position_ms (snapshot pos) = pos"
  by (simp add: snapshot_def)

lemma audio_progress_step_other:
  assumes "instance_id payload \<noteq> i"
  shows "map_of (seekRecovery (audio_progress payload now s)) i = map_of (seekRecovery s) i"
    and "map_of (activeProgresses (audio_progress payload now s)) i = map_of (activeProgresses s) i"
    and "seekingInstanceId (audio_progress payload now s) = seekingInstanceId s"
  using assms
  by (simp_all add: audio_progress_def audio_progress_step_def apply_progress_other
      delete_conv' split: option.split)

lemma audio_progress_seeking [simp]:
  "seekingInstanceId (audio_progress payload now s) = seekingInstanceId s"
  by (simp add: audio_progress_def audio_progress_step_def split: option.split)

text \<open>
  C1 (amended). For every incoming progress snapshot of an instance with an armed
  recovery target \<open>t\<close>: when \<open>position_ms < t - 100\<close> the snapshot is discarded, the whole
  store (so every field of the stored progress, and the target) stays as it is; when
  \<open>position_ms \<ge> t - 100\<close> and the slider of the instance is not held
  (\<open>seekingInstanceId\<close> is not the instance), the target is cleared and the snapshot is
  consumed exactly as it is when no target is recorded: the stored entry takes the
  position as \<open>last_sync_pos\<close>, the time of arrival, the pause flag and the duration; and
  while the slider of the instance is held the snapshot is ignored, whatever its
  position: the whole store stays as it is and the target stays armed.
\<close>

theorem recovery_target_filters_snapshot:
  assumes "map_of (seekRecovery s) (instance_id payload) = Some t"
  shows "(position_ms payload < t - 100 \<longrightarrow>
            audio_progress payload now s = s \<and>
            fst (audio_progress_step payload now s) \<noteq> Applied \<and>
            map_of (seekRecovery (audio_progress payload now s)) (instance_id payload) = Some t) \<and>
         (t - 100 \<le> position_ms payload \<and> seekingInstanceId s \<noteq> Some (instance_id payload) \<longrightarrow>
            fst (audio_progress_step payload now s) = Applied \<and>
            map_of (seekRecovery (audio_progress payload now s)) (instance_id payload) = None \<and>
            audio_progress payload now s =
              audio_progress payload now
                (s\<lparr>seekRecovery := AList.delete (instance_id payload) (seekRecovery s)\<rparr>) \<and>
            (\<exists>e. map_of (activeProgresses (audio_progress payload now s)) (instance_id payload) =
                    Some e \<and>
                  last_sync_pos e = position_ms payload \<and> last_sync_time e = now \<and>
                  is_paused e = is_paused payload \<and> duration_ms e = duration_ms payload)) \<and>
         (seekingInstanceId s = Some (instance_id payload) \<longrightarrow>
            audio_progress_step payload now s = (Ignored_seeking, s) \<and>
            audio_progress payload now s = s \<and>
            map_of (seekRecovery (audio_progress payload now s)) (instance_id payload) = Some t)"
proof (intro conjI impI)
  assume "position_ms payload < t - 100"
  then show "audio_progress payload now s = s"
    and "fst (audio_progress_step payload now s) \<noteq> Applied"
    and "map_of (seekRecovery (audio_progress payload now s)) (instance_id payload) = Some t"
    using assms by (simp_all add: audio_progress_def audio_progress_step_def)
next
  assume a: "t - 100 \<le> position_ms payload \<and> seekingInstanceId s \<noteq> Some (instance_id payload)"
  let ?s0 = "s\<lparr>seekRecovery := AList.delete (instance_id payload) (seekRecovery s)\<rparr>"
  have step: "audio_progress_step payload now s = (Applied, apply_progress payload now ?s0)"
    using a assms by (simp add: audio_progress_step_def)
  have step0: "audio_progress_step payload now ?s0 = (Applied, apply_progress payload now ?s0)"
    using a by (simp add: audio_progress_step_def delete_conv')
  show "fst (audio_progress_step payload now s) = Applied"
    by (simp add: step)
  show "map_of (seekRecovery (audio_progress payload now s)) (instance_id payload) = None"
    by (simp add: audio_progress_def step delete_conv')
  show "audio_progress payload now s = audio_progress payload now ?s0"
    by (simp add: audio_progress_def step step0)
  show "\<exists>e. map_of (activeProgresses (audio_progress payload now s)) (instance_id payload) =
                    Some e \<and>
                  last_sync_pos e = position_ms payload \<and> last_sync_time e = now \<and>
                  is_paused e = is_paused payload \<and> duration_ms e = duration_ms payload"
    using apply_progress_entry[of payload now ?s0] by (auto simp: audio_progress_def step)
next
  assume "seekingInstanceId s = Some (instance_id payload)"
  then show "audio_progress_step payload now s = (Ignored_seeking, s)"
    and "audio_progress payload now s = s"
    and "map_of (seekRecovery (audio_progress payload now s)) (instance_id payload) = Some t"
    using assms by (simp_all add: audio_progress_def audio_progress_step_def)
qed

text \<open>
  After the seek to 5000 the target is armed and no slider is held: the snapshot at 1000
  is discarded, the one at 4950 is applied and clears the target. While the handler still
  waits for \<^verbatim>\<open>seek_instance\<close> the slider counts as held: the snapshot at 6000 is ignored and
  the target stays armed.
\<close>

theorem recovery_target_filters_snapshot_witness:
  "map_of (seekRecovery (store seeked_app)) (instance_id (snapshot 1000)) = Some 5000 \<and>
   position_ms (snapshot 1000) < 5000 - 100 \<and>
   audio_progress (snapshot 1000) 3000 (store seeked_app) = store seeked_app \<and>
   map_of (seekRecovery (store seeked_app)) (instance_id (snapshot 4950)) = Some 5000 \<and>
   5000 - 100 \<le> position_ms (snapshot 4950) \<and>
   seekingInstanceId (store seeked_app) \<noteq> Some (instance_id (snapshot 4950)) \<and>
   fst (audio_progress_step (snapshot 4950) 3000 (store seeked_app)) = Applied \<and>
   map_of (seekRecovery (audio_progress (snapshot 4950) 3000 (store seeked_app))) 1 = None \<and>
   map_of (seekRecovery (store releasing_app)) (instance_id (snapshot 6000)) = Some 5000 \<and>
   seekingInstanceId (store releasing_app) = Some (instance_id (snapshot 6000)) \<and>
   audio_progress_step (snapshot 6000) 3000 (store releasing_app) =
     (Ignored_seeking, store releasing_app)"
proof -
  have h: "map_of (seekRecovery (store seeked_app)) (instance_id (snapshot 1000)) = Some 5000"
    by (simp add: seeked_app_eval snapshot_def)
  have h': "map_of (seekRecovery (store seeked_app)) (instance_id (snapshot 4950)) = Some 5000"
    by (simp add: seeked_app_eval snapshot_def)
  have h'': "map_of (seekRecovery (store releasing_app)) (instance_id (snapshot 6000)) = Some 5000"
    by (simp add: releasing_app_eval snapshot_def)
  have g: "seekingInstanceId (store seeked_app) \<noteq> Some (instance_id (snapshot 4950))"
    by (simp add: seeked_app_eval snapshot_def)
  have g'': "seekingInstanceId (store releasing_app) = Some (instance_id (snapshot 6000))"
    by (simp add: releasing_app_eval snapshot_def)
  have p: "position_ms (snapshot 1000) < 5000 - 100" "5000 - 100 \<le> position_ms (snapshot 4950)"
    "instance_id (snapshot 4950) = 1"
    by (simp_all add: snapshot_def)
  have a: "audio_progress (snapshot 1000) 3000 (store seeked_app) = store seeked_app"
    using recovery_target_filters_snapshot[OF h, of 3000] p(1) by blast
  have b: "fst (audio_progress_step (snapshot 4950) 3000 (store seeked_app)) = Applied"
    "map_of (seekRecovery (audio_progress (snapshot 4950) 3000 (store seeked_app)))
       (instance_id (snapshot 4950)) = None"
    using recovery_target_filters_snapshot[OF h', of 3000] p(2) g by blast+
  have c: "audio_progress_step (snapshot 6000) 3000 (store releasing_app) =
     (Ignored_seeking, store releasing_app)"
    using recovery_target_filters_snapshot[OF h'', of 3000] g'' by blast
  show ?thesis
    using h h' h'' g g'' p a b c by simp
qed

text \<open>
  C1 as stated fails while the slider is held. In the state in which \<^verbatim>\<open>handleSeekEnd\<close>
  waits for \<^verbatim>\<open>seek_instance\<close> the target 5000 is armed; a snapshot at 5000 (at least
  \<open>5000 - 100\<close>) takes the first early return: the target stays armed and the snapshot is
  not applied.
\<close>

theorem recovery_target_kept_while_slider_held:
  "map_of (seekRecovery (store releasing_app)) (instance_id (snapshot 5000)) = Some 5000 \<and>
   5000 - 100 \<le> position_ms (snapshot 5000) \<and>
   audio_progress_step (snapshot 5000) 3000 (store releasing_app) =
     (Ignored_seeking, store releasing_app) \<and>
   map_of (seekRecovery (audio_progress (snapshot 5000) 3000 (store releasing_app))) 1 = Some 5000 \<and>
   map_of (activeProgresses (audio_progress (snapshot 5000) 3000 (store releasing_app))) 1 =
     Some (boom_progress\<lparr>is_paused := True\<rparr>)"
  by (simp add: releasing_app_eval snapshot_def audio_progress_def audio_progress_step_def)

section \<open>While the slider is held\<close>

text \<open>Pressing the slider of an active instance starts the hold, with the stored position.\<close>

lemma handleSeekStart_holds:
  assumes "map_of (activeProgresses (store a)) i = Some item"
  shows "seekingInstanceId (store (handleSeekStart i r a)) = Some i \<and>
         localSeekValue (handleSeekStart i r a) = Some (position_ms item)"
  using assms
  by (simp add: handleSeekStart_def togglePauseInstance_def Let_def
      split: promise.split option.split)

lemma dispatch_held:
  assumes "seekingInstanceId s = Some i"
  shows "map_of (activeProgresses (dispatch ev s)) i = map_of (activeProgresses s) i \<and>
         map_of (seekRecovery (dispatch ev s)) i = map_of (seekRecovery s) i \<and>
         seekingInstanceId (dispatch ev s) = Some i"
proof (cases ev)
  case (Frame now)
  show ?thesis
  proof (cases "map_of (activeProgresses s) i")
    case None
    then show ?thesis using assms Frame
      by (simp add: loop_def map_of_loop_entry)
  next
    case (Some p)
    then show ?thesis using assms Frame loop_frame[OF Some, of now] by simp
  qed
next
  case (Progress payload now)
  show ?thesis
  proof (cases "instance_id payload = i")
    case True
    then show ?thesis using assms Progress
      by (simp add: audio_progress_def audio_progress_step_def)
  next
    case False
    then show ?thesis using assms Progress audio_progress_step_other[OF False] by simp
  qed
qed

lemma run_held:
  assumes "seekingInstanceId s = Some i"
  shows "map_of (activeProgresses (run evs s)) i = map_of (activeProgresses s) i \<and>
         map_of (seekRecovery (run evs s)) i = map_of (seekRecovery s) i \<and>
         seekingInstanceId (run evs s) = Some i"
  using assms
proof (induction evs arbitrary: s)
  case Nil
  then show ?case by (simp add: run_def)
next
  case (Cons ev evs)
  have "run (ev # evs) s = run evs (dispatch ev s)" by (simp add: run_def)
  then show ?case using Cons.IH[of "dispatch ev s"] dispatch_held[OF Cons.prems, of ev]
    by simp
qed

text \<open>
  C10. While the slider of an instance is held (\<open>seekingInstanceId\<close> is its id): a
  progress snapshot for it leaves the whole store as it is; a frame of the animation
  loop leaves its entry as it is; through any run of frames and snapshots (of any
  instances) its entry stays as it was and the slider stays held; and its slider shows
  the local slider value, whatever the stored position.
\<close>

theorem held_slider_freezes_progress:
  assumes "seekingInstanceId (store a) = Some i"
    and "instance_id payload = i"
    and "localSeekValue a = Some v"
    and "instance_id item = i"
  shows "audio_progress payload now (store a) = store a \<and>
         map_of (activeProgresses (loop now (store a))) i = map_of (activeProgresses (store a)) i \<and>
         map_of (activeProgresses (run evs (store a))) i = map_of (activeProgresses (store a)) i \<and>
         seekingInstanceId (run evs (store a)) = Some i \<and>
         slider_model_value (a\<lparr>store := run evs (store a)\<rparr>) item = v"
proof -
  have "audio_progress payload now (store a) = store a"
    using assms(1,2) by (simp add: audio_progress_def audio_progress_step_def)
  moreover have "map_of (activeProgresses (loop now (store a))) i =
      map_of (activeProgresses (store a)) i"
    using dispatch_held[OF assms(1), of "Frame now"] by simp
  moreover note run_held[OF assms(1), of evs]
  moreover have "slider_model_value (a\<lparr>store := run evs (store a)\<rparr>) item = v"
    using run_held[OF assms(1), of evs] assms(3,4) by (simp add: slider_model_value_def)
  ultimately show ?thesis by simp
qed

text \<open>
  While the slider of instance 1 is held at 5000, two frames and a snapshot at 2300 leave
  the entry of the instance as it was, and its slider shows 5000.
\<close>

theorem held_slider_freezes_progress_witness:
  "seekingInstanceId (store dragging_app) = Some 1 \<and> instance_id (snapshot 2300) = 1 \<and>
   localSeekValue dragging_app = Some 5000 \<and> instance_id boom_progress = 1 \<and>
   map_of (activeProgresses
      (run [Frame 1016, Progress (snapshot 2300) 1300, Frame 1500] (store dragging_app))) 1 =
     Some (boom_progress\<lparr>is_paused := True\<rparr>) \<and>
   slider_model_value
     (dragging_app\<lparr>store :=
        run [Frame 1016, Progress (snapshot 2300) 1300, Frame 1500] (store dragging_app)\<rparr>)
     boom_progress = 5000"
proof -
  have h1: "seekingInstanceId (store dragging_app) = Some 1"
    by (simp add: dragging_app_eval)
  have h2: "instance_id (snapshot 2300) = 1"
    by (simp add: snapshot_def)
  have h3: "localSeekValue dragging_app = Some 5000"
    by (simp add: dragging_app_eval)
  have h4: "instance_id boom_progress = 1"
    by (simp add: boom_progress_def)
  have e: "map_of (activeProgresses (store dragging_app)) 1 = Some (boom_progress\<lparr>is_paused := True\<rparr>)"
    by (simp add: dragging_app_eval)
  show ?thesis
    using h1 h2 h3 h4 e
      held_slider_freezes_progress[OF h1 h2 h3 h4,
        of 0 "[Frame 1016, Progress (snapshot 2300) 1300, Frame 1500]"]
    by simp
qed

section \<open>The end of the gesture\<close>

lemma togglePauseInstance_seekRecovery [simp]:
  "seekRecovery (togglePauseInstance i r s) = seekRecovery s"
  by (simp add: togglePauseInstance_def split: promise.split option.split)

lemma togglePauseInstance_position:
  "map_option position_ms (map_of (activeProgresses (togglePauseInstance i r s)) j) =
     map_option position_ms (map_of (activeProgresses s) j)"
  by (auto simp: togglePauseInstance_def update_conv' split: promise.split option.split)

lemma handleSeekEnd_rest_seekRecovery [simp]:
  "seekRecovery (store (handleSeekEnd_rest i w r a)) = seekRecovery (store a)"
  by (simp add: handleSeekEnd_rest_def Let_def)

lemma handleSeekEnd_rest_seeking [simp]:
  "seekingInstanceId (store (handleSeekEnd_rest i w r a)) = None"
  by (simp add: handleSeekEnd_rest_def Let_def)

lemma handleSeekEnd_rest_position:
  "map_option position_ms (map_of (activeProgresses (store (handleSeekEnd_rest i w r a))) j) =
     map_option position_ms (map_of (activeProgresses (store a)) j)"
  by (simp add: handleSeekEnd_rest_def Let_def togglePauseInstance_position)

lemma handleSeekEnd_target:
  assumes "map_of (activeProgresses (store a)) i = Some item" and "localSeekValue a = Some t"
  shows "map_of (seekRecovery (store (handleSeekEnd i sr tr a))) i = Some t"
  using assms
  by (simp add: handleSeekEnd_def handleSeekEnd_begin_def handleSeekEnd_seeked_def
      update_conv' split: promise.split)

text \<open>
  C4 (amended). When the slider of an active instance is released with the local value
  \<open>finalPos\<close>: the handler records \<open>finalPos\<close> as the recovery target of the instance and
  then invokes \<^verbatim>\<open>seek_instance\<close> with that position, in a state that differs from the state
  at the release by the recorded target only; the handler goes on from that state (it
  ends in it when the command is rejected), and the target is still recorded when the
  handler is done, whatever the outcomes. Once the command has resolved and the handler
  is done, the stored \<open>position_ms\<close> of the instance, and what its slider shows, is
  \<open>finalPos\<close>; when the command is rejected, \<open>position_ms\<close> is as it was.
\<close>

theorem handleSeekEnd_records_target_first:
  assumes "map_of (activeProgresses (store a)) i = Some item"
    and "localSeekValue a = Some finalPos"
  shows "handleSeekEnd_begin i a =
           Some (finalPos,
                 a\<lparr>store := (store a)\<lparr>seekRecovery :=
                      AList.update i finalPos (seekRecovery (store a))\<rparr>\<rparr>,
                 seek_instance i finalPos) \<and>
         map_of (seekRecovery (store
           (a\<lparr>store := (store a)\<lparr>seekRecovery :=
                AList.update i finalPos (seekRecovery (store a))\<rparr>\<rparr>))) i = Some finalPos \<and>
         handleSeekEnd i Rejected tr a =
           a\<lparr>store := (store a)\<lparr>seekRecovery :=
                AList.update i finalPos (seekRecovery (store a))\<rparr>\<rparr> \<and>
         handleSeekEnd i (Resolved ()) tr a =
           handleSeekEnd_rest i (map_of (wasPlayingBeforeSeek a) i) tr
             (handleSeekEnd_seeked i finalPos
                (a\<lparr>store := (store a)\<lparr>seekRecovery :=
                     AList.update i finalPos (seekRecovery (store a))\<rparr>\<rparr>)) \<and>
         map_of (seekRecovery (store (handleSeekEnd i sr tr a))) i = Some finalPos \<and>
         map_option position_ms
           (map_of (activeProgresses (store (handleSeekEnd i (Resolved ()) tr a))) i) =
           Some finalPos \<and>
         map_option (slider_model_value (handleSeekEnd i (Resolved ()) tr a))
           (map_of (activeProgresses (store (handleSeekEnd i (Resolved ()) tr a))) i) =
           Some finalPos \<and>
         map_option position_ms
           (map_of (activeProgresses (store (handleSeekEnd i Rejected tr a))) i) =
           Some (position_ms item)"
proof -
  let ?a1 = "a\<lparr>store := (store a)\<lparr>seekRecovery :=
      AList.update i finalPos (seekRecovery (store a))\<rparr>\<rparr>"
  let ?a' = "handleSeekEnd i (Resolved ()) tr a"
  have b: "handleSeekEnd_begin i a = Some (finalPos, ?a1, seek_instance i finalPos)"
    using assms by (simp add: handleSeekEnd_begin_def)
  have t1: "map_of (seekRecovery (store ?a1)) i = Some finalPos"
    by (simp add: update_conv')
  have rej: "handleSeekEnd i Rejected tr a = ?a1"
    by (simp add: handleSeekEnd_def b)
  have res: "?a' = handleSeekEnd_rest i (map_of (wasPlayingBeforeSeek a) i) tr
      (handleSeekEnd_seeked i finalPos ?a1)"
    by (simp add: handleSeekEnd_def b)
  have p: "map_option position_ms (map_of (activeProgresses (store ?a')) i) = Some finalPos"
    using assms
    by (simp add: res handleSeekEnd_rest_position handleSeekEnd_seeked_def update_conv')
  have n: "seekingInstanceId (store ?a') = None"
    by (simp add: res)
  have "slider_model_value ?a' e = position_ms e" for e
    using n by (simp add: slider_model_value_def)
  then have sl: "map_option (slider_model_value ?a') (map_of (activeProgresses (store ?a')) i) =
      map_option position_ms (map_of (activeProgresses (store ?a')) i)"
    by (metis option.map_cong)
  have q: "map_option position_ms
      (map_of (activeProgresses (store (handleSeekEnd i Rejected tr a))) i) =
      Some (position_ms item)"
    using assms by (simp add: rej)
  show ?thesis
    using b t1 rej res handleSeekEnd_target[OF assms, of sr tr] p sl q by simp
qed

text \<open>
  The slider of instance 1 is released at 5000: \<^verbatim>\<open>seek_instance\<close> is invoked with the target
  armed at 5000, and when the command has resolved and the handler is done the entry and
  the slider are at 5000.
\<close>

theorem handleSeekEnd_records_target_first_witness:
  "map_of (activeProgresses (store dragging_app)) 1 = Some (boom_progress\<lparr>is_paused := True\<rparr>) \<and>
   localSeekValue dragging_app = Some 5000 \<and>
   handleSeekEnd_begin 1 dragging_app = Some (5000, releasing_app, seek_instance 1 5000) \<and>
   map_of (seekRecovery (store releasing_app)) 1 = Some 5000 \<and>
   map_of (seekRecovery (store seeked_app)) 1 = Some 5000 \<and>
   map_option position_ms (map_of (activeProgresses (store seeked_app)) 1) = Some 5000 \<and>
   sliders seeked_app = [5000]"
proof -
  have h1: "map_of (activeProgresses (store dragging_app)) 1 = Some (boom_progress\<lparr>is_paused := True\<rparr>)"
    by (simp add: dragging_app_eval)
  have h2: "localSeekValue dragging_app = Some 5000"
    by (simp add: dragging_app_eval)
  have s: "sliders seeked_app = [5000]"
    by (simp add: sliders_def queueList_def seeked_app_eval slider_model_value_def)
  note inst = handleSeekEnd_records_target_first[OF h1 h2, of "Resolved False" "Resolved ()",
      folded seeked_app_def]
  have r: "map_of (seekRecovery (store releasing_app)) 1 = Some 5000"
    by (simp add: releasing_app_eval)
  have "map_of (seekRecovery (store seeked_app)) 1 = Some 5000"
    "map_option position_ms (map_of (activeProgresses (store seeked_app)) 1) = Some 5000"
    using inst by simp_all
  then show ?thesis
    using h1 h2 s r by (simp add: releasing_app_eval(1))
qed

text \<open>
  C4 as stated fails when \<^verbatim>\<open>seek_instance\<close> is rejected. The slider of instance 1, at
  2000 ms, is released at 5000: the target 5000 is recorded, the command is invoked and
  rejected, and the handler ends there: \<open>position_ms\<close> is still 2000, not the target.
\<close>

theorem handleSeekEnd_rejected_keeps_position:
  "handleSeekEnd_begin 1 dragging_app = Some (5000, releasing_app, seek_instance 1 5000) \<and>
   handleSeekEnd 1 Rejected (Resolved False) dragging_app = releasing_app \<and>
   map_of (seekRecovery (store (handleSeekEnd 1 Rejected (Resolved False) dragging_app))) 1 =
     Some 5000 \<and>
   map_option position_ms
     (map_of (activeProgresses (store (handleSeekEnd 1 Rejected (Resolved False) dragging_app))) 1) =
     Some 2000"
proof -
  have "handleSeekEnd 1 Rejected (Resolved False) dragging_app = releasing_app"
    by (simp add: handleSeekEnd_def releasing_app_eval(1))
  then show ?thesis
    by (simp add: releasing_app_eval boom_progress_def)
qed

section \<open>Stopping one instance\<close>

lemma stopInstance_is_finished: "stopInstance i (Resolved ()) s = audio_finished i s"
  by (simp add: stopInstance_def audio_finished_def)

text \<open>An \<^verbatim>\<open>audio-finished\<close> event delivered right after the stop finds no entry.\<close>

lemma audio_finished_after_stopInstance:
  "map_of (activeProgresses s) i = Some progress \<Longrightarrow>
     audio_finished i (stopInstance i (Resolved ()) s) = stopInstance i (Resolved ()) s"
  by (simp add: stopInstance_def audio_finished_def delete_conv')

text \<open>
  C6 (amended). After \<open>stop\<close> has completed for an instance that is active in the engine
  and in the store and whose owning button is found: the command has resolved, the
  instance is no longer in the engine's active set nor in \<open>activeProgresses\<close>; the owning
  button's \<open>activeInstances\<close> is one less when it was positive and as it was otherwise;
  and no \<^verbatim>\<open>finished\<close> event is emitted, so no \<^verbatim>\<open>audio-finished\<close> handling is triggered: the
  store is exactly what \<open>stopInstance\<close> made of it. Natural completion is the other
  path: it emits the one event \<^verbatim>\<open>finished\<close> for the instance, and the store is what the
  \<^verbatim>\<open>audio-finished\<close> handler makes of it; and an instance that is not in the engine's
  active set (as the stopped one is not) does not complete: nothing is emitted for it.
\<close>

theorem stopInstance_removes_and_decrements:
  assumes "i \<in> set active"
    and "map_of (activeProgresses s) i = Some progress"
    and "find (\<lambda>b. number_toString (id_b b) = id_p progress) (buttons s) = Some button"
  shows "stop i (active, s) = ([], removeAll i active, stopInstance i (Resolved ()) s) \<and>
         i \<notin> set (removeAll i active) \<and>
         map_of (activeProgresses (stopInstance i (Resolved ()) s)) i = None \<and>
         i \<notin> fst ` set (activeProgresses (stopInstance i (Resolved ()) s)) \<and>
         find (\<lambda>b. number_toString (id_b b) = id_p progress)
              (buttons (stopInstance i (Resolved ()) s)) =
           Some (button\<lparr>activeInstances :=
                   (if activeInstances button > 0 then activeInstances button - 1
                    else activeInstances button)\<rparr>) \<and>
         complete i (active, s) =
           ([audio_finished_event i], removeAll i active, audio_finished i s) \<and>
         (i \<notin> set active' \<longrightarrow> complete i (active', s') = ([], active', s'))"
proof -
  let ?s' = "stopInstance i (Resolved ()) s"
  have st: "stop i (active, s) = ([], removeAll i active, ?s')"
    using assms(1) by (simp add: stop_def engine_stop_def)
  have gone: "map_of (activeProgresses ?s') i = None"
    using assms(2) by (simp add: stopInstance_def delete_conv')
  have notin: "i \<notin> fst ` set (activeProgresses ?s')"
    using assms(2) by (simp add: stopInstance_def delete_notin_dom)
  have owner: "find (\<lambda>b. number_toString (id_b b) = id_p progress) (buttons ?s') =
           Some (button\<lparr>activeInstances :=
                   (if activeInstances button > 0 then activeInstances button - 1
                    else activeInstances button)\<rparr>)"
    using assms(2,3) by (simp add: stopInstance_def find_update_first)
  have co: "complete i (active, s) =
      ([audio_finished_event i], removeAll i active, audio_finished i s)"
    using assms(1) by (simp add: complete_def engine_complete_def deliver_def)
  have after: "i \<notin> set active' \<longrightarrow> complete i (active', s') = ([], active', s')"
    by (simp add: complete_def engine_complete_def)
  show ?thesis
    using st gone notin owner co after by simp
qed

text \<open>
  Instance 1 of button 3 is stopped: no event is emitted, the engine's set and the table
  are empty, and the counter of the button goes from 1 to 0.
\<close>

theorem stopInstance_removes_and_decrements_witness:
  "1 \<in> set [1::int] \<and>
   map_of (activeProgresses playing_store) 1 = Some boom_progress \<and>
   find (\<lambda>b. number_toString (id_b b) = id_p boom_progress) (buttons playing_store) =
     Some boom_button \<and>
   activeInstances boom_button = 1 \<and>
   fst (stop 1 ([1], playing_store)) = [] \<and>
   fst (snd (stop 1 ([1], playing_store))) = [] \<and>
   activeProgresses (snd (snd (stop 1 ([1], playing_store)))) = [] \<and>
   map_option activeInstances
     (find (\<lambda>b. number_toString (id_b b) = id_p boom_progress)
        (buttons (snd (snd (stop 1 ([1], playing_store)))))) = Some 0"
proof -
  have h0: "1 \<in> set [1::int]"
    by simp
  have h1: "map_of (activeProgresses playing_store) 1 = Some boom_progress"
    by (simp add: playing_store_fields)
  have h2: "find (\<lambda>b. number_toString (id_b b) = id_p boom_progress) (buttons playing_store) =
     Some boom_button"
    using playing_store_owner(2) by (simp add: boom_progress_def)
  have c: "activeInstances boom_button = 1"
    by (simp add: boom_button_def)
  have e: "activeProgresses (stopInstance 1 (Resolved ()) playing_store) = []"
    by (simp add: stopInstance_def playing_store_fields)
  show ?thesis
    using h0 h1 h2 c e stopInstance_removes_and_decrements[OF h0 h1 h2]
    by simp
qed

text \<open>
  C6 as stated fails on a counter that is 0. Button 3 is reset (GlowButton.vue sets
  \<open>activeInstances\<close> to 0 and stops nothing) while its instance 1 plays; when the instance
  is stopped the guard \<^verbatim>\<open>button.activeInstances > 0\<close> keeps the counter at 0: it is not
  decremented by one.
\<close>

theorem stopInstance_keeps_zero_counter:
  "map_of (activeProgresses (reset 3 playing_store)) 1 = Some boom_progress \<and>
   map_option activeInstances
     (find (\<lambda>b. number_toString (id_b b) = id_p boom_progress)
        (buttons (reset 3 playing_store))) = Some 0 \<and>
   map_of (activeProgresses (stopInstance 1 (Resolved ()) (reset 3 playing_store))) 1 = None \<and>
   map_option activeInstances
     (find (\<lambda>b. number_toString (id_b b) = id_p boom_progress)
        (buttons (stopInstance 1 (Resolved ()) (reset 3 playing_store)))) = Some 0 \<and>
   map_option activeInstances
     (find (\<lambda>b. number_toString (id_b b) = id_p boom_progress)
        (buttons (stopInstance 1 (Resolved ()) (reset 3 playing_store)))) \<noteq> Some (0 - 1)"
proof -
  have r: "buttons (reset 3 playing_store) =
      default_button 0 # default_button 1 # default_button 2 # default_button 3 #
      init_buttons 4 60"
    "activeProgresses (reset 3 playing_store) = [(1, boom_progress)]"
    by (simp_all add: reset_def updateButton_def spread_def playing_store_fields
        default_button_sel boom_button_def default_button_def number_toString_def
        nat_toString.simps digit_char_def)
  have k: "id_p boom_progress = ''3''"
    by (simp add: boom_progress_def)
  show ?thesis
    by (simp add: stopInstance_def r k default_button_sel number_toString_0123
        default_button_def)
qed

section \<open>Snapshots after a seek\<close>

lemma audio_progress_step_armed:
  assumes "map_of (seekRecovery s) (instance_id payload) = Some t"
  shows "fst (audio_progress_step payload now s) = Applied \<Longrightarrow> t - 100 \<le> position_ms payload"
    and "fst (audio_progress_step payload now s) \<noteq> Applied \<Longrightarrow>
           snd (audio_progress_step payload now s) = s"
    and "fst (audio_progress_step payload now s) = Applied \<Longrightarrow>
           map_of (seekRecovery (audio_progress payload now s)) (instance_id payload) = None"
  using assms
  by (simp_all add: audio_progress_def audio_progress_step_def delete_conv' split: if_splits)

lemma accepted_Cons:
  "accepted ((payload, now) # evs) s =
     (if fst (audio_progress_step payload now s) = Applied then [payload] else []) @
     accepted evs (audio_progress payload now s)"
  by (simp add: audio_progress_def split: prod.split)

text \<open>No snapshot arms a target: once cleared, it stays cleared.\<close>

lemma audio_progress_keeps_cleared:
  "map_of (seekRecovery s) i = None \<Longrightarrow> map_of (seekRecovery (audio_progress payload now s)) i = None"
  by (simp add: audio_progress_def audio_progress_step_def delete_conv' split: option.split)

lemma progress_run_keeps_cleared:
  "map_of (seekRecovery s) i = None \<Longrightarrow> map_of (seekRecovery (progress_run evs s)) i = None"
proof (induction evs arbitrary: s)
  case Nil
  then show ?case by simp
next
  case (Cons ev evs)
  obtain payload now where ev: "ev = (payload, now)" by (cases ev)
  show ?case
    using Cons.IH[OF audio_progress_keeps_cleared[OF Cons.prems, of payload now]]
    by (simp add: ev)
qed

lemma progress_run_seeking [simp]:
  "seekingInstanceId (progress_run evs s) = seekingInstanceId s"
proof (induction evs arbitrary: s)
  case Nil
  then show ?case by simp
next
  case (Cons ev evs)
  obtain payload now where ev: "ev = (payload, now)" by (cases ev)
  show ?case using Cons.IH[of "audio_progress payload now s"] by (simp add: ev)
qed

text \<open>With no target and no held slider, every snapshot of the instance is accepted.\<close>

lemma cleared_accepts_all:
  assumes "map_of (seekRecovery s) i = None" and "seekingInstanceId s \<noteq> Some i"
  shows "filter (\<lambda>p. instance_id p = i) (accepted evs s) =
         filter (\<lambda>p. instance_id p = i) (map fst evs)"
  using assms
proof (induction evs arbitrary: s)
  case Nil
  then show ?case by simp
next
  case (Cons ev evs)
  obtain payload now where ev: "ev = (payload, now)" by (cases ev)
  let ?s' = "audio_progress payload now s"
  have keep: "map_of (seekRecovery ?s') i = None" "seekingInstanceId ?s' \<noteq> Some i"
    using audio_progress_keeps_cleared[OF Cons.prems(1)] Cons.prems(2) by simp_all
  have here: "instance_id payload = i \<Longrightarrow> fst (audio_progress_step payload now s) = Applied"
    using Cons.prems by (simp add: audio_progress_step_def)
  show ?case
    using Cons.IH[OF keep] here
    by (simp add: ev accepted_Cons del: accepted.simps)
qed

lemma armed_target_filters_run:
  assumes "map_of (seekRecovery s) i = Some t"
  shows "(case filter (\<lambda>p. instance_id p = i) (accepted evs s) of
            [] \<Rightarrow> map_of (activeProgresses (progress_run evs s)) i = map_of (activeProgresses s) i \<and>
                  map_of (seekRecovery (progress_run evs s)) i = Some t
          | p # ps \<Rightarrow> t - 100 \<le> position_ms p \<and>
                  map_of (seekRecovery (progress_run evs s)) i = None)"
  using assms
proof (induction evs arbitrary: s)
  case Nil
  then show ?case by simp
next
  case (Cons ev evs)
  obtain payload now where ev: "ev = (payload, now)" by (cases ev)
  let ?s' = "audio_progress payload now s"
  have r: "progress_run (ev # evs) s = progress_run evs ?s'"
    by (simp add: ev)
  show ?case
  proof (cases "instance_id payload = i")
    case other: False
    have keep: "map_of (seekRecovery ?s') i = Some t"
      "map_of (activeProgresses ?s') i = map_of (activeProgresses s) i"
      using audio_progress_step_other[OF other, of now s] Cons.prems by simp_all
    have f: "filter (\<lambda>p. instance_id p = i) (accepted (ev # evs) s) =
        filter (\<lambda>p. instance_id p = i) (accepted evs ?s')"
      using other by (simp add: ev accepted_Cons del: accepted.simps)
    show ?thesis
      unfolding f r using Cons.IH[OF keep(1)] keep(2) by (simp split: list.splits)
  next
    case same: True
    have armed: "map_of (seekRecovery s) (instance_id payload) = Some t"
      using Cons.prems same by simp
    show ?thesis
    proof (cases "fst (audio_progress_step payload now s) = Applied")
      case True
      have f: "filter (\<lambda>p. instance_id p = i) (accepted (ev # evs) s) =
          payload # filter (\<lambda>p. instance_id p = i) (accepted evs ?s')"
        using same True by (simp add: ev accepted_Cons del: accepted.simps)
      have "map_of (seekRecovery ?s') i = None"
        using audio_progress_step_armed(3)[OF armed True] same by simp
      then have "map_of (seekRecovery (progress_run evs ?s')) i = None"
        by (rule progress_run_keeps_cleared)
      then show ?thesis
        unfolding f r using audio_progress_step_armed(1)[OF armed True] by simp
    next
      case False
      have u: "?s' = s"
        using audio_progress_step_armed(2)[OF armed False] by (simp add: audio_progress_def)
      have f: "filter (\<lambda>p. instance_id p = i) (accepted (ev # evs) s) =
          filter (\<lambda>p. instance_id p = i) (accepted evs s)"
        using False u by (simp add: ev accepted_Cons del: accepted.simps)
      show ?thesis
        unfolding f r u using Cons.IH[OF Cons.prems] by (simp split: list.splits)
    qed
  qed
qed

text \<open>
  C2 (amended). For every seek that \<^verbatim>\<open>handleSeekEnd\<close> makes on an active instance with target
  \<open>t\<close>, whatever the outcomes of its commands: the target \<open>t\<close> is armed when the handler is
  done, and for every run of snapshots that arrives afterward, in any order and at any
  times: the first snapshot of the instance that is accepted satisfies
  \<open>position_ms \<ge> t - 100\<close>; when none is accepted, the stored progress of the instance
  is as the handler left it and the target is still armed; when one is accepted, the
  target is cleared, and is still cleared at the end of the run; and after a run in which
  one was accepted, every snapshot of the instance in a further run is accepted, whatever
  its position, unless the slider of the instance is held (it is not held once the seek
  has resolved and the handler is done).
\<close>

theorem first_snapshot_accepted_after_seek:
  assumes "map_of (activeProgresses (store a)) i = Some item" and "localSeekValue a = Some t"
  shows "map_of (seekRecovery (store (handleSeekEnd i sr tr a))) i = Some t \<and>
         (case filter (\<lambda>p. instance_id p = i) (accepted evs (store (handleSeekEnd i sr tr a))) of
            [] \<Rightarrow>
              map_of (activeProgresses (progress_run evs (store (handleSeekEnd i sr tr a)))) i =
                map_of (activeProgresses (store (handleSeekEnd i sr tr a))) i \<and>
              map_of (seekRecovery (progress_run evs (store (handleSeekEnd i sr tr a)))) i = Some t
          | p # ps \<Rightarrow>
              t - 100 \<le> position_ms p \<and>
              map_of (seekRecovery (progress_run evs (store (handleSeekEnd i sr tr a)))) i = None) \<and>
         (filter (\<lambda>p. instance_id p = i) (accepted evs (store (handleSeekEnd i sr tr a))) \<noteq> [] \<and>
          seekingInstanceId (store (handleSeekEnd i sr tr a)) \<noteq> Some i \<longrightarrow>
            filter (\<lambda>p. instance_id p = i)
              (accepted later (progress_run evs (store (handleSeekEnd i sr tr a)))) =
            filter (\<lambda>p. instance_id p = i) (map fst later)) \<and>
         seekingInstanceId (store (handleSeekEnd i (Resolved ()) tr a)) = None"
proof -
  let ?s = "store (handleSeekEnd i sr tr a)"
  have released: "seekingInstanceId (store (handleSeekEnd i (Resolved ()) tr a)) = None"
    using assms by (simp add: handleSeekEnd_def handleSeekEnd_begin_def)
  note armed = handleSeekEnd_target[OF assms, of sr tr]
  note run = armed_target_filters_run[OF armed, of evs]
  have "filter (\<lambda>p. instance_id p = i) (accepted later (progress_run evs ?s)) =
      filter (\<lambda>p. instance_id p = i) (map fst later)"
    if "filter (\<lambda>p. instance_id p = i) (accepted evs ?s) \<noteq> []"
      and "seekingInstanceId ?s \<noteq> Some i"
  proof (rule cleared_accepts_all)
    show "map_of (seekRecovery (progress_run evs ?s)) i = None"
      using run that(1) by (simp split: list.splits)
    show "seekingInstanceId (progress_run evs ?s) \<noteq> Some i"
      using that(2) by simp
  qed
  then show ?thesis using armed run released by blast
qed

text \<open>
  After the seek to 5000, of the snapshots at 2100, 4950 and 5100 the first is discarded;
  the first one accepted is at 4950 and clears the target, and the stale snapshot at 2100
  that arrives after them is accepted.
\<close>

theorem first_snapshot_accepted_after_seek_witness:
  "map_of (activeProgresses (store dragging_app)) 1 = Some (boom_progress\<lparr>is_paused := True\<rparr>) \<and>
   localSeekValue dragging_app = Some 5000 \<and>
   map_of (seekRecovery (store seeked_app)) 1 = Some 5000 \<and>
   accepted [(snapshot 2100, 1100), (snapshot 4950, 1200), (snapshot 5100, 1300)] (store seeked_app) =
     [snapshot 4950, snapshot 5100] \<and>
   5000 - 100 \<le> position_ms (snapshot 4950) \<and>
   map_of (seekRecovery
     (progress_run [(snapshot 2100, 1100), (snapshot 4950, 1200), (snapshot 5100, 1300)]
        (store seeked_app))) 1 = None \<and>
   seekingInstanceId (store seeked_app) \<noteq> Some 1 \<and>
   filter (\<lambda>p. instance_id p = 1)
     (accepted [(snapshot 2100, 1400)]
        (progress_run [(snapshot 2100, 1100), (snapshot 4950, 1200), (snapshot 5100, 1300)]
           (store seeked_app))) = [snapshot 2100]"
proof -
  let ?evs = "[(snapshot 2100, 1100), (snapshot 4950, 1200), (snapshot 5100, 1300)]"
  have h1: "map_of (activeProgresses (store dragging_app)) 1 = Some (boom_progress\<lparr>is_paused := True\<rparr>)"
    by (simp add: dragging_app_eval)
  have h2: "localSeekValue dragging_app = Some 5000"
    by (simp add: dragging_app_eval)
  have acc: "accepted ?evs (store seeked_app) = [snapshot 4950, snapshot 5100]"
    by (simp add: seeked_app_eval audio_progress_step_def playing_store_fields
        instance_id_snapshot position_ms_snapshot)
  have i: "instance_id (snapshot 4950) = 1" "instance_id (snapshot 5100) = 1"
    "instance_id (snapshot 2100) = 1" "position_ms (snapshot 4950) = 4950"
    by (simp_all add: snapshot_def)
  have g: "seekingInstanceId (store seeked_app) \<noteq> Some 1"
    by (simp add: seeked_app_eval)
  note inst = first_snapshot_accepted_after_seek[OF h1 h2, of "Resolved ()" "Resolved False"
        ?evs "[(snapshot 2100, 1400)]", folded seeked_app_def]
  have f: "filter (\<lambda>p. instance_id p = 1) (accepted ?evs (store seeked_app)) =
      [snapshot 4950, snapshot 5100]"
    unfolding acc by (simp add: i)
  have c: "map_of (seekRecovery (progress_run ?evs (store seeked_app))) 1 = None"
    using inst unfolding f by simp
  have l: "filter (\<lambda>p. instance_id p = 1)
     (accepted [(snapshot 2100, 1400)] (progress_run ?evs (store seeked_app))) = [snapshot 2100]"
    using inst g unfolding f by (simp add: i del: accepted.simps progress_run.simps)
  show ?thesis
    using h1 h2 acc i g c l inst by (simp del: accepted.simps progress_run.simps)
qed

text \<open>
  C2 as stated fails. Instance 1, playing at 2000 ms (synchronised at time 1000), is
  dragged to 5000 and released: the slider shows 5000. A snapshot at 5000 is accepted and
  clears the target; the stale snapshot at 2100 (of before the seek) that arrives after it
  is accepted too, though \<open>2100 < 5000 - 100\<close>, and the next frame shows 2200. Even with
  no snapshot at all, the first frame after the release (at time 1500) shows 2500: the
  loop extrapolates from the synchronisation point of before the seek.
\<close>

theorem stale_snapshot_accepted_after_first:
  "handleSeekEnd_begin 1 dragging_app = Some (5000, releasing_app, seek_instance 1 5000) \<and>
   sliders seeked_app = [5000] \<and>
   accepted [(snapshot 5000, 3000), (snapshot 2100, 3100)] (store seeked_app) =
     [snapshot 5000, snapshot 2100] \<and>
   position_ms (snapshot 2100) < 5000 - 100 \<and>
   sliders (seeked_app\<lparr>store :=
      loop 3200 (progress_run [(snapshot 5000, 3000), (snapshot 2100, 3100)] (store seeked_app))\<rparr>) =
     [2200] \<and>
   sliders (seeked_app\<lparr>store := loop 1500 (store seeked_app)\<rparr>) = [2500]"
proof -
  define s1 where "s1 = audio_progress (snapshot 5000) 3000 (store seeked_app)"
  define s2 where "s2 = audio_progress (snapshot 2100) 3100 s1"
  have acc: "accepted [(snapshot 5000, 3000), (snapshot 2100, 3100)] (store seeked_app) =
     [snapshot 5000, snapshot 2100]"
    by (simp add: seeked_app_eval audio_progress_step_def playing_store_fields
        instance_id_snapshot position_ms_snapshot)
  have "s1 = apply_progress (snapshot 5000) 3000
      ((store seeked_app)\<lparr>seekRecovery := AList.delete 1 (seekRecovery (store seeked_app))\<rparr>)"
    unfolding s1_def
    using audio_progress_cleared[of "store seeked_app" "snapshot 5000" 5000 3000]
    by (simp add: seeked_app_eval instance_id_snapshot position_ms_snapshot)
  then have s1: "activeProgresses s1 =
      [(1, boom_progress\<lparr>position_ms := 5000, last_sync_pos := 5000, last_sync_time := 3000\<rparr>)]"
    "seekRecovery s1 = []" "seekingInstanceId s1 = None"
    by (simp_all add: seeked_app_eval apply_progress_activeProgresses instance_id_snapshot
        snapshot_def boom_progress_def Let_def)
  have "s2 = apply_progress (snapshot 2100) 3100 s1"
    unfolding s2_def
    by (rule audio_progress_applied) (simp_all add: s1 instance_id_snapshot)
  then have s2: "activeProgresses s2 =
      [(1, boom_progress\<lparr>position_ms := 5000, last_sync_pos := 2100, last_sync_time := 3100\<rparr>)]"
    "seekingInstanceId s2 = None"
    by (simp_all add: s1 apply_progress_activeProgresses instance_id_snapshot
        snapshot_def boom_progress_def Let_def)
  have run: "progress_run [(snapshot 5000, 3000), (snapshot 2100, 3100)] (store seeked_app) = s2"
    by (simp add: s1_def s2_def)
  have late: "sliders (seeked_app\<lparr>store :=
      loop 3200 (progress_run [(snapshot 5000, 3000), (snapshot 2100, 3100)] (store seeked_app))\<rparr>) =
     [2200]"
    unfolding run
    by (simp add: sliders_def queueList_def slider_model_value_def loop_def loop_entry_def s2
        boom_progress_def Let_def)
  have early: "sliders (seeked_app\<lparr>store := loop 1500 (store seeked_app)\<rparr>) = [2500]"
    by (simp add: sliders_def queueList_def slider_model_value_def loop_def loop_entry_def
        seeked_app_eval boom_progress_def Let_def)
  have s: "sliders seeked_app = [5000]"
    by (simp add: sliders_def queueList_def seeked_app_eval slider_model_value_def)
  show ?thesis
    using acc late early s by (simp add: releasing_app_eval position_ms_snapshot)
qed

end
